theory Spec2Isabelle
  imports Complex_Main "HOL-Library.Char_ord" "HOL-Library.List_Lexorder" "HOL-Library.Product_Lexorder"
    "HOL-Library.Multiset"
begin

chapter \<open>QP_Tools: the cleanup engine, the registration helper, the asset cache and the updater\<close>

text \<open>
  The names of datablocks are Python strings of Unicode characters (\<open>ustring\<close> below),
  since the pattern of \<open>get_base_name\<close> reads their digits. The other strings (file paths,
  messages, the strings of JSON documents) are modelled as \<^typ>\<open>string\<close>, one
  \<^typ>\<open>char\<close> per character.
\<close>

section \<open>Definitions\<close>

subsection \<open>CleanUp.py: base names\<close>

text \<open>
  A character of a Python string: a Unicode decimal digit, which is what \<^verbatim>\<open>\d\<close> matches
  and what \<^verbatim>\<open>int()\<close> reads (the digits of any script: ASCII, Arabic-Indic, full-width and
  so on), with its code point and its digit value; or another character, with its code
  point.
\<close>

datatype uchar = Decimal nat nat | Other nat

type_synonym ustring = "uchar list"

definition u_newline :: uchar where
  "u_newline = Other 10"

definition u_dot :: uchar where
  "u_dot = Other 46"

text \<open>A character and a string of ASCII or Latin-1, as Python characters.\<close>

definition uchr :: "char \<Rightarrow> uchar" where
  "uchr c = (let n = (of_char c :: nat) in if 48 \<le> n \<and> n \<le> 57 then Decimal n (n - 48) else Other n)"

definition ustr :: "string \<Rightarrow> ustring" where
  "ustr s = map uchr s"

fun is_decimal :: "uchar \<Rightarrow> bool" where
  "is_decimal (Decimal cp v) = True"
| "is_decimal (Other cp) = False"

fun decimal_value :: "uchar \<Rightarrow> nat" where
  "decimal_value (Decimal cp v) = v"
| "decimal_value (Other cp) = 0"

text \<open>\<^verbatim>\<open>int(s)\<close> on a string of decimal digits.\<close>

definition int_of_digits :: "ustring \<Rightarrow> int" where
  "int_of_digits s = int (foldl (\<lambda>n c. 10 * n + decimal_value c) 0 s)"

text \<open>
  The tail \<^verbatim>\<open>\.(\d{3})$\<close> of the pattern, tried at one position: a dot, three digits,
  and then the end of the string, where \<^verbatim>\<open>$\<close> also matches just before one final
  newline. The result is group 2.
\<close>

definition match_suffix :: "ustring \<Rightarrow> ustring option" where
  "match_suffix s =
     (case s of
        [d, a, b, c] \<Rightarrow>
          if d = u_dot \<and> is_decimal a \<and> is_decimal b \<and> is_decimal c then Some [a, b, c] else None
      | [d, a, b, c, n] \<Rightarrow>
          if d = u_dot \<and> is_decimal a \<and> is_decimal b \<and> is_decimal c \<and> n = u_newline
          then Some [a, b, c] else None
      | _ \<Rightarrow> None)"

text \<open>
  \<^verbatim>\<open>re.match(r'^(.+?)\.(\d{3})$', name)\<close>: the lazy group \<^verbatim>\<open>(.+?)\<close> takes one
  character that is not a newline, then tries the tail, and takes one more character
  each time the tail fails. \<open>pre\<close> is what group 1 holds so far. The result is
  (group 1, group 2).
\<close>

fun lazy_group :: "ustring \<Rightarrow> ustring \<Rightarrow> (ustring \<times> ustring) option" where
  "lazy_group pre [] = None"
| "lazy_group pre (c # cs) =
     (if c = u_newline then None
      else (case match_suffix cs of
              Some g2 \<Rightarrow> Some (pre @ [c], g2)
            | None \<Rightarrow> lazy_group (pre @ [c]) cs))"

definition re_match :: "ustring \<Rightarrow> (ustring \<times> ustring) option" where
  "re_match name = lazy_group [] name"

definition get_base_name :: "ustring \<Rightarrow> ustring" where
  "get_base_name name =
     (case re_match name of
        Some (g1, g2) \<Rightarrow> if 1 \<le> int_of_digits g2 \<and> int_of_digits g2 \<le> 999 then g1 else name
      | None \<Rightarrow> name)"

subsection \<open>Python values the helpers handle: exceptions, the console, JSON\<close>

text \<open>
  The exceptions modelled are instances of \<^verbatim>\<open>Exception\<close>, which is what every handler of
  these modules catches; an exception carries its class and the text \<^verbatim>\<open>str(e)\<close>.
  \<^verbatim>\<open>URLError\<close> and \<^verbatim>\<open>TimeoutError\<close> are subclasses of \<^verbatim>\<open>OSError\<close>, and
  \<^verbatim>\<open>JSONDecodeError\<close> and \<^verbatim>\<open>UnicodeDecodeError\<close> of \<^verbatim>\<open>ValueError\<close>.
\<close>

datatype exc_class = URLError | TimeoutError | OSError | JSONDecodeError | UnicodeDecodeError
  | ValueError | TypeError | AttributeError | OtherException

datatype py_exception = Raised exc_class string

fun exc_class_of :: "py_exception \<Rightarrow> exc_class" where
  "exc_class_of (Raised c m) = c"

fun str_of :: "py_exception \<Rightarrow> string" where
  "str_of (Raised c m) = m"

text \<open>What \<^verbatim>\<open>print\<close> and \<^verbatim>\<open>traceback.print_exc()\<close> send to the console, in order.\<close>

datatype console_line = Print string | PrintExc py_exception

text \<open>
  JSON documents as \<^verbatim>\<open>json.load\<close> returns them. A dict keeps its insertion order, so an
  object is an association list. A float is a real number: only its equality and its being
  zero are used.
\<close>

datatype json = JNull | JBool bool | JInt int | JFloat real | JStr string | JArr "json list"
  | JObj "(string \<times> json) list"

text \<open>Python truthiness, as \<^verbatim>\<open>default or {}\<close> and \<^verbatim>\<open>if remote_ver\<close> test it.\<close>

fun truthy :: "json \<Rightarrow> bool" where
  "truthy JNull = False"
| "truthy (JBool b) = b"
| "truthy (JInt n) = (n \<noteq> 0)"
| "truthy (JFloat x) = (x \<noteq> 0)"
| "truthy (JStr s) = (s \<noteq> [])"
| "truthy (JArr xs) = (xs \<noteq> [])"
| "truthy (JObj kvs) = (kvs \<noteq> [])"

text \<open>\<^verbatim>\<open>d[k] = v\<close> on a dict: an existing key keeps its place, a new key goes last.\<close>

fun dict_set :: "(string \<times> 'v) list \<Rightarrow> string \<Rightarrow> 'v \<Rightarrow> (string \<times> 'v) list" where
  "dict_set [] k v = [(k, v)]"
| "dict_set ((k', v') # kvs) k v = (if k' = k then (k, v) # kvs else (k', v') # dict_set kvs k v)"

text \<open>The name Python prints for the type of a JSON value, as in an \<^verbatim>\<open>AttributeError\<close>.\<close>

fun type_name :: "json \<Rightarrow> string" where
  "type_name JNull = ''NoneType''"
| "type_name (JBool b) = ''bool''"
| "type_name (JInt n) = ''int''"
| "type_name (JFloat x) = ''float''"
| "type_name (JStr s) = ''str''"
| "type_name (JArr xs) = ''list''"
| "type_name (JObj kvs) = ''dict''"

subsection \<open>module_helper.py: ModuleManager\<close>





text \<open>
  \<^verbatim>\<open>bpy.utils.register_class\<close> and \<^verbatim>\<open>unregister_class\<close> belong to Blender: they are
  parameters that take the class (its \<^verbatim>\<open>__name__\<close>) and Blender's state \<open>'w\<close> and either
  raise or return, with the state they leave.
\<close>

definition safe_register_class ::
  "(string \<Rightarrow> 'w \<Rightarrow> py_exception option \<times> 'w) \<Rightarrow> string \<Rightarrow> bool \<Rightarrow> 'w \<times> console_line list
     \<Rightarrow> ('w \<times> console_line list) \<times> bool" where
  "safe_register_class register_class cls report_errors st =
     (case register_class cls (fst st) of
        (None, w) \<Rightarrow> ((w, snd st), True)
      | (Some e, w) \<Rightarrow>
          ((w, if report_errors then snd st @ [Print (''Error registering '' @ cls @ '': '' @ str_of e)]
               else snd st), False))"

definition safe_unregister_class ::
  "(string \<Rightarrow> 'w \<Rightarrow> py_exception option \<times> 'w) \<Rightarrow> string \<Rightarrow> bool \<Rightarrow> 'w \<times> console_line list
     \<Rightarrow> ('w \<times> console_line list) \<times> bool" where
  "safe_unregister_class unregister_class cls report_errors st =
     (case unregister_class cls (fst st) of
        (None, w) \<Rightarrow> ((w, snd st), True)
      | (Some e, w) \<Rightarrow>
          ((w, if report_errors then snd st @ [Print (''Error unregistering '' @ cls @ '': '' @ str_of e)]
               else snd st), False))"

text \<open>
  \<^verbatim>\<open>operation(*args, **kwargs)\<close> is the operation already applied to its arguments. The result
  \<open>None\<close> is Python's \<^verbatim>\<open>None\<close>.
\<close>

definition safe_file_operation ::
  "('w \<Rightarrow> (py_exception + 'a) \<times> 'w) \<Rightarrow> 'w \<times> console_line list
     \<Rightarrow> ('w \<times> console_line list) \<times> 'a option" where
  "safe_file_operation operation st =
     (case operation (fst st) of
        (Inr r, w) \<Rightarrow> ((w, snd st), Some r)
      | (Inl e, w) \<Rightarrow>
          ((w, snd st @ [Print (''File operation error: '' @ str_of e), PrintExc e]), None))"

subsection \<open>asset_cache.py: loading and saving JSON\<close>

text \<open>
  The file system: the contents of the regular files, by path, and the directories.
  \<^verbatim>\<open>os.path.exists\<close> is true of both.
\<close>

record filesystem =
  files :: "string \<rightharpoonup> string"
  dirs :: "string set"

definition path_exists :: "filesystem \<Rightarrow> string \<Rightarrow> bool" where
  "path_exists fs p = (files fs p \<noteq> None \<or> p \<in> dirs fs)"

text \<open>\<^verbatim>\<open>default or {}\<close>, with \<open>None\<close> for the default \<^verbatim>\<open>None\<close>.\<close>

definition default_or_empty :: "json option \<Rightarrow> json" where
  "default_or_empty d = (case d of None \<Rightarrow> JObj [] | Some j \<Rightarrow> if truthy j then j else JObj [])"

text \<open>
  \<open>json_loads\<close> is the parser of the \<^verbatim>\<open>json\<close> module, and \<open>open_fault\<close> the exception
  \<^verbatim>\<open>open(filepath, 'r')\<close> or the read raises at this call, if any. A path that exists and
  is not a regular file cannot be opened.
\<close>

definition safe_load_json ::
  "(string \<Rightarrow> py_exception + json) \<Rightarrow> py_exception option \<Rightarrow> filesystem \<Rightarrow> string \<Rightarrow> json option
     \<Rightarrow> console_line list \<Rightarrow> json \<times> console_line list" where
  "safe_load_json json_loads open_fault fs filepath dflt console =
     (if \<not> path_exists fs filepath then (default_or_empty dflt, console)
      else
        (case (case open_fault of
                 Some e \<Rightarrow> Inl e
               | None \<Rightarrow>
                   (case files fs filepath of
                      None \<Rightarrow> Inl (Raised OSError (''Is a directory: '' @ filepath))
                    | Some text \<Rightarrow> json_loads text)) of
           Inr j \<Rightarrow> (j, console)
         | Inl e \<Rightarrow>
             (default_or_empty dflt,
              console @ [Print (''Error loading JSON from '' @ filepath @ '': '' @ str_of e)])))"

text \<open>
  The faults one call of \<open>safe_save_json\<close> can meet: \<^verbatim>\<open>os.makedirs\<close> raises;
  \<^verbatim>\<open>open(temp_file, 'w')\<close> raises; \<^verbatim>\<open>json.dump\<close> (or closing the file) raises after
  the given text has reached the temporary file; \<^verbatim>\<open>os.replace\<close> or \<^verbatim>\<open>os.rename\<close>
  raises.
\<close>

record save_faults =
  makedirs_fault :: "py_exception option"
  open_fault :: "py_exception option"
  dump_fault :: "(string \<times> py_exception) option"
  rename_fault :: "py_exception option"

definition no_faults :: save_faults where
  "no_faults = \<lparr>makedirs_fault = None, open_fault = None, dump_fault = None, rename_fault = None\<rparr>"

definition save_error :: "string \<Rightarrow> py_exception \<Rightarrow> console_line" where
  "save_error filepath e = Print (''Error saving JSON to '' @ filepath @ '': '' @ str_of e)"

text \<open>
  \<open>dirname\<close> is \<^verbatim>\<open>os.path.dirname\<close> and \<open>json_dumps\<close> the text \<^verbatim>\<open>json.dump\<close> writes for
  the data. Renaming moves the temporary file's contents to the target path; renaming onto a
  directory raises.
\<close>

definition safe_save_json ::
  "(string \<Rightarrow> string) \<Rightarrow> ('d \<Rightarrow> string) \<Rightarrow> save_faults \<Rightarrow> string \<Rightarrow> 'd
     \<Rightarrow> filesystem \<times> console_line list \<Rightarrow> (filesystem \<times> console_line list) \<times> bool" where
  "safe_save_json dirname json_dumps faults filepath data st =
     (let fs = fst st; console = snd st; directory = dirname filepath;
          need_dir = (directory \<noteq> [] \<and> \<not> path_exists fs directory) in
      case (if need_dir then makedirs_fault faults else None) of
        Some e \<Rightarrow> ((fs, console @ [save_error filepath e]), False)
      | None \<Rightarrow>
        let fs1 = (if need_dir then fs\<lparr>dirs := insert directory (dirs fs)\<rparr> else fs);
            temp_file = filepath @ ''.tmp'' in
        (case open_fault faults of
           Some e \<Rightarrow> ((fs1, console @ [save_error filepath e]), False)
         | None \<Rightarrow>
             (case dump_fault faults of
                Some (written, e) \<Rightarrow>
                  ((fs1\<lparr>files := (files fs1)(temp_file \<mapsto> written)\<rparr>,
                    console @ [save_error filepath e]), False)
              | None \<Rightarrow>
                  let fs2 = fs1\<lparr>files := (files fs1)(temp_file \<mapsto> json_dumps data)\<rparr> in
                  (case (if filepath \<in> dirs fs2
                         then Some (Raised OSError (''Is a directory: '' @ filepath))
                         else rename_fault faults) of
                     Some e \<Rightarrow> ((fs2, console @ [save_error filepath e]), False)
                   | None \<Rightarrow>
                       ((fs2\<lparr>files := ((files fs2)(filepath \<mapsto> json_dumps data))(temp_file := None)\<rparr>,
                         console), True)))))"

text \<open>A failure during directory creation, serialization or rename, as this call meets it.\<close>

definition save_fails :: "(string \<Rightarrow> string) \<Rightarrow> save_faults \<Rightarrow> filesystem \<Rightarrow> string \<Rightarrow> bool" where
  "save_fails dirname faults fs filepath =
     ((dirname filepath \<noteq> [] \<and> \<not> path_exists fs (dirname filepath) \<and> makedirs_fault faults \<noteq> None)
      \<or> open_fault faults \<noteq> None \<or> dump_fault faults \<noteq> None \<or> rename_fault faults \<noteq> None)"

subsection \<open>updater.py: the background update check\<close>

definition MANIFEST_URL :: string where
  "MANIFEST_URL = ''https://raw.githubusercontent.com/Orbi51/QP_Tools/main/update_info.json''"

text \<open>The module-level dict \<open>_update_state\<close>; three of its entries take values of the manifest.\<close>

record update_state =
  checked :: bool
  "checking" :: bool
  addon_update_available :: bool
  addon_remote_version :: json
  addon_changelog :: json
  addon_download_url :: json
  error :: string
  download_progress :: real
  download_status :: string
  addon_dismissed :: bool

text \<open>
  What one run of \<open>_do_check\<close> meets outside the module: \<^verbatim>\<open>urlopen\<close> (given the URL, the
  headers and the timeout) raises or returns a response whose \<^verbatim>\<open>read()\<close> raises or returns
  the body; \<^verbatim>\<open>decode('utf-8')\<close>; \<^verbatim>\<open>json.loads\<close> and \<^verbatim>\<open>json.dumps\<close>; \<^verbatim>\<open>int(x)\<close> on a
  string (\<open>None\<close>: \<^verbatim>\<open>ValueError\<close>); the path of the state file, or the exception that
  creating its directory raises; the faults of reading and of writing the state file (the
  latter after the given text is written); the formatted current time; the fault of
  \<^verbatim>\<open>bpy.app.timers.register\<close>; and \<open>CURRENT_ADDON_VERSION\<close>, read from the add-on's
  manifest at import.
\<close>

record updater_env =
  urlopen :: "string \<Rightarrow> (string \<times> string) list \<Rightarrow> nat \<Rightarrow> py_exception + (py_exception + string)"
  decode_utf8 :: "string \<Rightarrow> py_exception + string"
  env_json_loads :: "string \<Rightarrow> py_exception + json"
  env_json_dumps :: "json \<Rightarrow> string"
  py_int :: "string \<Rightarrow> int option"
  get_state_file :: "py_exception + string"
  state_read_fault :: "py_exception option"
  state_write_fault :: "(string \<times> py_exception) option"
  now_strftime :: string
  timers_register_fault :: "py_exception option"
  CURRENT_ADDON_VERSION :: string

text \<open>\<^verbatim>\<open>s.split(sep)\<close> with a separator of one character.\<close>

fun split_on :: "char \<Rightarrow> string \<Rightarrow> string list" where
  "split_on sep [] = [[]]"
| "split_on sep (c # cs) =
     (if c = sep then [] # split_on sep cs
      else (case split_on sep cs of [] \<Rightarrow> [[c]] | w # ws \<Rightarrow> (c # w) # ws))"

text \<open>\<^verbatim>\<open>tuple(int(x) for x in v.split('.'))\<close>; \<open>None\<close> when an \<^verbatim>\<open>int(x)\<close> raises.\<close>

fun all_some :: "'a option list \<Rightarrow> 'a list option" where
  "all_some [] = Some []"
| "all_some (None # xs) = None"
| "all_some (Some x # xs) = (case all_some xs of None \<Rightarrow> None | Some ys \<Rightarrow> Some (x # ys))"

definition version_tuple :: "(string \<Rightarrow> int option) \<Rightarrow> string \<Rightarrow> int list option" where
  "version_tuple to_int v = all_some (map to_int (split_on CHR ''.'' v))"

text \<open>
  \<open>_is_newer\<close>: a remote version that is not a string has no \<^verbatim>\<open>split\<close>
  (\<^verbatim>\<open>AttributeError\<close>, caught); tuples compare lexicographically.
\<close>

definition is_newer :: "(string \<Rightarrow> int option) \<Rightarrow> json \<Rightarrow> string \<Rightarrow> bool" where
  "is_newer to_int remote local_version =
     (case remote of
        JStr r \<Rightarrow>
          (case version_tuple to_int r of
             None \<Rightarrow> False
           | Some rt \<Rightarrow>
               (case version_tuple to_int local_version of
                  None \<Rightarrow> False
                | Some lt \<Rightarrow> lt < rt))
      | _ \<Rightarrow> False)"

definition quoted :: "string \<Rightarrow> string" where
  "quoted s = [CHR 0x27] @ s @ [CHR 0x27]"

text \<open>\<^verbatim>\<open>d.get(key, dflt)\<close>: only a dict has \<^verbatim>\<open>get\<close>.\<close>

definition json_get :: "json \<Rightarrow> string \<Rightarrow> json \<Rightarrow> py_exception + json" where
  "json_get d key dflt =
     (case d of
        JObj kvs \<Rightarrow> Inr (case map_of kvs key of Some v \<Rightarrow> v | None \<Rightarrow> dflt)
      | _ \<Rightarrow> Inl (Raised AttributeError
                 (quoted (type_name d) @ '' object has no attribute '' @ quoted ''get'')))"

text \<open>\<^verbatim>\<open>d[key] = v\<close> on a value that \<^verbatim>\<open>json.load\<close> returned.\<close>

definition json_setitem :: "json \<Rightarrow> string \<Rightarrow> json \<Rightarrow> py_exception + json" where
  "json_setitem d key v =
     (case d of
        JObj kvs \<Rightarrow> Inr (JObj (dict_set kvs key v))
      | JArr xs \<Rightarrow> Inl (Raised TypeError ''list indices must be integers or slices, not str'')
      | _ \<Rightarrow> Inl (Raised TypeError
                 (quoted (type_name d) @ '' object does not support item assignment'')))"

definition is_OSError :: "exc_class \<Rightarrow> bool" where
  "is_OSError c = (c = OSError \<or> c = URLError \<or> c = TimeoutError)"

definition default_updater_state :: json where
  "default_updater_state = JObj [(''last_check'', JStr []), (''dismissed_addon_version'', JStr [])]"

text \<open>
  \<open>_load_updater_state\<close>: \<^verbatim>\<open>JSONDecodeError\<close> and \<^verbatim>\<open>OSError\<close> give the default state;
  what \<open>_get_state_file\<close> raises, and any other exception of the read, goes to the caller.
\<close>

definition load_updater_state :: "updater_env \<Rightarrow> filesystem \<Rightarrow> py_exception + json" where
  "load_updater_state env fs =
     (case get_state_file env of
        Inl e \<Rightarrow> Inl e
      | Inr path \<Rightarrow>
          if path_exists fs path then
            (case (case state_read_fault env of
                     Some e \<Rightarrow> Inl e
                   | None \<Rightarrow>
                       (case files fs path of
                          None \<Rightarrow> Inl (Raised OSError (''Is a directory: '' @ path))
                        | Some content \<Rightarrow> env_json_loads env content)) of
               Inr j \<Rightarrow> Inr j
             | Inl e \<Rightarrow>
                 if exc_class_of e = JSONDecodeError \<or> is_OSError (exc_class_of e)
                 then Inr default_updater_state else Inl e)
          else Inr default_updater_state)"

text \<open>\<open>_save_updater_state\<close>: an \<^verbatim>\<open>OSError\<close> of the write is dropped.\<close>

definition save_updater_state :: "updater_env \<Rightarrow> json \<Rightarrow> filesystem \<Rightarrow> py_exception option \<times> filesystem" where
  "save_updater_state env data fs =
     (case get_state_file env of
        Inl e \<Rightarrow> (Some e, fs)
      | Inr path \<Rightarrow>
          (case state_write_fault env of
             Some (written, e) \<Rightarrow>
               (if is_OSError (exc_class_of e) then None else Some e,
                fs\<lparr>files := (files fs)(path \<mapsto> written)\<rparr>)
           | None \<Rightarrow> (None, fs\<lparr>files := (files fs)(path \<mapsto> env_json_dumps env data)\<rparr>)))"

text \<open>
  The state one run works on: \<open>_update_state\<close>, the global \<open>_manual_check\<close> and the file
  system.
\<close>

record check_state =
  upd :: update_state
  manual_check :: bool
  disk :: filesystem

text \<open>
  The branch for a newer remote version: the entries of \<open>_update_state\<close> are assigned one by
  one, so those assigned before an exception keep their new values.
\<close>

definition set_update_available ::
  "json \<Rightarrow> json \<Rightarrow> json \<Rightarrow> check_state \<Rightarrow> py_exception option \<times> check_state" where
  "set_update_available persistent addon_info remote_ver st =
     (let u1 = (upd st)\<lparr>addon_update_available := True, addon_remote_version := remote_ver\<rparr> in
      case json_get addon_info ''changelog'' (JStr []) of
        Inl e \<Rightarrow> (Some e, st\<lparr>upd := u1\<rparr>)
      | Inr changelog \<Rightarrow>
          (case json_get addon_info ''download_url'' (JStr []) of
             Inl e \<Rightarrow> (Some e, st\<lparr>upd := u1\<lparr>addon_changelog := changelog\<rparr>\<rparr>)
           | Inr url \<Rightarrow>
               (let u2 = u1\<lparr>addon_changelog := changelog, addon_download_url := url\<rparr> in
                if manual_check st then (None, st\<lparr>upd := u2\<lparr>addon_dismissed := False\<rparr>\<rparr>)
                else
                  (case json_get persistent ''dismissed_addon_version'' (JStr []) of
                     Inl e \<Rightarrow> (Some e, st\<lparr>upd := u2\<rparr>)
                   | Inr dismissed \<Rightarrow>
                       (None, st\<lparr>upd := u2\<lparr>addon_dismissed := (remote_ver = dismissed)\<rparr>\<rparr>)))))"

text \<open>The part of the \<^verbatim>\<open>try\<close> block after the manifest is parsed.\<close>

definition apply_manifest :: "updater_env \<Rightarrow> json \<Rightarrow> check_state \<Rightarrow> py_exception option \<times> check_state" where
  "apply_manifest env data st =
     (case load_updater_state env (disk st) of
        Inl e \<Rightarrow> (Some e, st)
      | Inr persistent \<Rightarrow>
     (case json_get data ''addon'' (JObj []) of
        Inl e \<Rightarrow> (Some e, st)
      | Inr addon_info \<Rightarrow>
     (case json_get addon_info ''version'' (JStr []) of
        Inl e \<Rightarrow> (Some e, st)
      | Inr remote_ver \<Rightarrow>
     (case
        (if truthy remote_ver \<and> is_newer (py_int env) remote_ver (CURRENT_ADDON_VERSION env)
         then set_update_available persistent addon_info remote_ver st
         else (None, st\<lparr>upd := (upd st)\<lparr>addon_update_available := False, addon_dismissed := False\<rparr>\<rparr>)) of
        (Some e, st1) \<Rightarrow> (Some e, st1)
      | (None, st1) \<Rightarrow>
          (case json_setitem persistent ''last_check'' (JStr (now_strftime env)) of
             Inl e \<Rightarrow> (Some e, st1)
           | Inr persistent1 \<Rightarrow>
               (case save_updater_state env persistent1 (disk st1) of
                  (r, fs1) \<Rightarrow> (r, st1\<lparr>disk := fs1\<rparr>)))))))"

text \<open>
  \<^verbatim>\<open>urlopen(Request(MANIFEST_URL, headers={"User-Agent": "QP_Tools-Updater"}), timeout=10)\<close>
  and the \<^verbatim>\<open>read()\<close> of its response.
\<close>

definition fetch_manifest :: "updater_env \<Rightarrow> py_exception + (py_exception + string)" where
  "fetch_manifest env = urlopen env MANIFEST_URL [(''User-Agent'', ''QP_Tools-Updater'')] 10"

text \<open>The \<^verbatim>\<open>try\<close> block: the request, the read, the decoding and the parse come first.\<close>

definition try_check :: "updater_env \<Rightarrow> check_state \<Rightarrow> py_exception option \<times> check_state" where
  "try_check env st =
     (case fetch_manifest env of
        Inl e \<Rightarrow> (Some e, st)
      | Inr resp \<Rightarrow>
     (case resp of
        Inl e \<Rightarrow> (Some e, st)
      | Inr body \<Rightarrow>
     (case decode_utf8 env body of
        Inl e \<Rightarrow> (Some e, st)
      | Inr content \<Rightarrow>
     (case env_json_loads env content of
        Inl e \<Rightarrow> (Some e, st)
      | Inr data \<Rightarrow> apply_manifest env data st))))"

text \<open>The three \<^verbatim>\<open>except\<close> clauses, in their order.\<close>

definition handle_check_error :: "py_exception \<Rightarrow> update_state \<Rightarrow> update_state" where
  "handle_check_error e u =
     (if is_OSError (exc_class_of e) then u\<lparr>error := ''Network error: '' @ str_of e\<rparr>
      else if exc_class_of e = JSONDecodeError then u\<lparr>error := ''Invalid update manifest''\<rparr>
      else u\<lparr>error := str_of e\<rparr>)"

text \<open>
  \<open>_do_check\<close>. Registering the redraw timer changes nothing here, and what it raises is
  dropped.
\<close>

definition do_check :: "updater_env \<Rightarrow> check_state \<Rightarrow> check_state" where
  "do_check env st =
     (let st0 = st\<lparr>upd := (upd st)\<lparr>checking := True, error := []\<rparr>\<rparr>;
          (r, st1) = try_check env st0;
          st2 = (case r of None \<Rightarrow> st1 | Some e \<Rightarrow> st1\<lparr>upd := handle_check_error e (upd st1)\<rparr>)
      in st2\<lparr>upd := (upd st2)\<lparr>checked := True, checking := False\<rparr>, manual_check := False\<rparr>)"

subsection \<open>asset_cache.py: scanning a library into the cache\<close>









text \<open>
  What a scan meets outside the module: the path \<open>get_cache_path\<close> returns; the files
  \<^verbatim>\<open>os.walk\<close> finds under a directory, each joined with its directory;
  \<^verbatim>\<open>os.path.relpath\<close> (which can raise) and \<^verbatim>\<open>os.path.dirname\<close>; the object names
  \<^verbatim>\<open>bpy.data.libraries.load(blend_file, assets_only=True)\<close> gives, or the exception it
  raises; \<^verbatim>\<open>time.time()\<close> at its n-th call; the JSON parser and serializer; and the faults
  of reading and of saving the cache file.
\<close>

record scan_env =
  cache_path :: string
  walk_files :: "string \<Rightarrow> string list"
  relpath :: "string \<Rightarrow> string \<Rightarrow> py_exception + string"
  path_dirname :: "string \<Rightarrow> string"
  load_objects :: "string \<Rightarrow> py_exception + string list"
  time_time :: "nat \<Rightarrow> real"
  cache_loads :: "string \<Rightarrow> py_exception + json"
  cache_dumps :: "json \<Rightarrow> string"
  cache_read_fault :: "py_exception option"
  cache_save_faults :: save_faults

text \<open>The state a scan threads: the file system, the console and the number of clock reads.\<close>

record scan_state =
  s_disk :: filesystem
  s_console :: "console_line list"
  s_clock :: nat











definition save_asset_cache :: "scan_env \<Rightarrow> json \<Rightarrow> scan_state \<Rightarrow> py_exception + (bool \<times> scan_state)" where
  "save_asset_cache env cache st =
     (case json_setitem cache ''timestamp'' (JFloat (time_time env (s_clock st))) of
        Inl e \<Rightarrow> Inl e
      | Inr cache1 \<Rightarrow>
          (case safe_save_json (path_dirname env) (cache_dumps env) (cache_save_faults env)
                  (cache_path env) cache1 (s_disk st, s_console st) of
             ((fs, console), ok) \<Rightarrow>
               Inr (ok, st\<lparr>s_disk := fs, s_console := console, s_clock := s_clock st + 1\<rparr>)))"




subsection \<open>CleanUp.py: datablocks and their comparison\<close>

text \<open>
  A datablock is known by its pointer: \<^verbatim>\<open>a == b\<close> on two datablocks compares the pointers.
  A node carries its type and the datablocks it refers to; \<open>None\<close> is an attribute that is
  missing or is \<^verbatim>\<open>None\<close>, which the comparisons of the remapping treat alike. Colours,
  metallic and roughness are reals: only their equality is used.
\<close>

type_synonym ptr = nat

record node =
  node_type :: string
  node_tree_ref :: "ptr option"
  node_image :: "ptr option"
  node_material :: "ptr option"

record material =
  use_nodes :: bool
  diffuse_color :: "real list"
  metallic :: real
  roughness :: real
  mat_nodes :: "node list option"

text \<open>
  The interface of a node group: the items of \<^verbatim>\<open>interface.items_tree\<close> (a socket has
  \<^verbatim>\<open>in_out\<close>, a name and a socket type; a panel has no \<^verbatim>\<open>in_out\<close>), or the \<^verbatim>\<open>inputs\<close>
  and \<^verbatim>\<open>outputs\<close> of the older API (name and type of each), or neither.
\<close>

datatype interface_item = SocketItem string string string | PanelItem string

datatype interface = ItemsTree "interface_item list"
  | LegacySockets "(string \<times> string) list" "(string \<times> string) list"
  | NoInterface

record node_group =
  ng_nodes :: "node list"
  ng_links :: "(nat \<times> nat) list"
  ng_interface :: interface

record img =
  img_filepath :: string
  img_size :: "nat list"
  img_depth :: nat
  img_channels :: nat

datatype db_data = MaterialData material | NodeGroupData node_group | ImageData img

record datablock =
  db_ptr :: ptr
  db_name :: ustring
  db_library :: "string option"
  db_data :: db_data

text \<open>The three keys of \<open>DATA_CONFIGS\<close>: the collection an operator works on.\<close>

datatype data_type = Materials | NodeGroups | Images

definition is_linked_data :: "datablock \<Rightarrow> bool" where
  "is_linked_data data_block = (db_library data_block \<noteq> None)"

definition are_materials_identical :: "material \<Rightarrow> material \<Rightarrow> bool" where
  "are_materials_identical mat1 mat2 =
     (if use_nodes mat1 \<noteq> use_nodes mat2 then False
      else if \<not> use_nodes mat1 then
        take 3 (diffuse_color mat1) = take 3 (diffuse_color mat2)
        \<and> metallic mat1 = metallic mat2 \<and> roughness mat1 = roughness mat2
      else
        (case (mat_nodes mat1, mat_nodes mat2) of
           (Some nodes1, Some nodes2) \<Rightarrow>
             if length nodes1 \<noteq> length nodes2 then False
             else sort (map node_type nodes1) = sort (map node_type nodes2)
         | (t1, t2) \<Rightarrow> t1 = None \<and> t2 = None))"

text \<open>The sockets of one direction among the items of an interface, as (name, socket type).\<close>

fun sockets_of :: "string \<Rightarrow> interface_item list \<Rightarrow> (string \<times> string) list" where
  "sockets_of dir [] = []"
| "sockets_of dir (SocketItem in_out nm socket_type # its) =
     (if in_out = dir then (nm, socket_type) # sockets_of dir its else sockets_of dir its)"
| "sockets_of dir (PanelItem nm # its) = sockets_of dir its"

text \<open>
  The interface part of \<open>are_node_groups_identical\<close>: false where the function returns
  \<open>False\<close> there, true where it goes on to the node types. The warning it prints when
  neither API is there is not modelled.
\<close>

definition interfaces_match :: "interface \<Rightarrow> interface \<Rightarrow> bool" where
  "interfaces_match i1 i2 =
     (case (i1, i2) of
        (ItemsTree items1, ItemsTree items2) \<Rightarrow>
          (let inputs1 = sockets_of ''INPUT'' items1; outputs1 = sockets_of ''OUTPUT'' items1;
               inputs2 = sockets_of ''INPUT'' items2; outputs2 = sockets_of ''OUTPUT'' items2
           in if length inputs1 \<noteq> length inputs2 \<or> length outputs1 \<noteq> length outputs2 then False
              else \<not> (sort inputs1 \<noteq> sort inputs2 \<or> sort outputs1 \<noteq> sort outputs2))
      | (LegacySockets inputs1 outputs1, LegacySockets inputs2 outputs2) \<Rightarrow>
          if length inputs1 \<noteq> length inputs2 \<or> length outputs1 \<noteq> length outputs2 then False
          else list_all (\<lambda>(inp1, inp2). \<not> (fst inp1 \<noteq> fst inp2 \<or> snd inp1 \<noteq> snd inp2)) (zip inputs1 inputs2)
             \<and> list_all (\<lambda>(out1, out2). \<not> (fst out1 \<noteq> fst out2 \<or> snd out1 \<noteq> snd out2)) (zip outputs1 outputs2)
      | _ \<Rightarrow> True)"

definition are_node_groups_identical :: "node_group \<Rightarrow> node_group \<Rightarrow> bool" where
  "are_node_groups_identical ng1 ng2 =
     (if length (ng_nodes ng1) \<noteq> length (ng_nodes ng2) then False
      else if length (ng_links ng1) \<noteq> length (ng_links ng2) then False
      else if \<not> interfaces_match (ng_interface ng1) (ng_interface ng2) then False
      else sort (map node_type (ng_nodes ng1)) = sort (map node_type (ng_nodes ng2)))"

text \<open>
  \<^verbatim>\<open>os.path.isabs\<close>, \<^verbatim>\<open>bpy.path.abspath\<close> and \<^verbatim>\<open>os.path.normpath\<close>. \<open>None\<close> from
  \<open>abspath\<close> is an \<^verbatim>\<open>OSError\<close> or \<^verbatim>\<open>ValueError\<close>, the exceptions the comparison of images
  catches.
\<close>

record path_env =
  isabs :: "string \<Rightarrow> bool"
  abspath :: "string \<Rightarrow> string option"
  normpath :: "string \<Rightarrow> string"

definition absolute_path :: "path_env \<Rightarrow> string \<Rightarrow> string option" where
  "absolute_path penv filepath = (if \<not> isabs penv filepath then abspath penv filepath else Some filepath)"

definition are_images_identical :: "path_env \<Rightarrow> img \<Rightarrow> img \<Rightarrow> bool" where
  "are_images_identical penv img1 img2 =
     (if img_filepath img1 = [] \<and> img_filepath img2 = [] then
        img_size img1 = img_size img2 \<and> img_depth img1 = img_depth img2
        \<and> img_channels img1 = img_channels img2
      else if (img_filepath img1 \<noteq> []) \<noteq> (img_filepath img2 \<noteq> []) then False
      else
        (case absolute_path penv (img_filepath img1) of
           None \<Rightarrow> img_filepath img1 = img_filepath img2
         | Some path1 \<Rightarrow>
             (case absolute_path penv (img_filepath img2) of
                None \<Rightarrow> img_filepath img1 = img_filepath img2
              | Some path2 \<Rightarrow> normpath penv path1 = normpath penv path2)))"

text \<open>
  \<open>are_items_identical_by_type\<close>: the collection decides the comparison. An item of another
  kind has not the attributes the comparison reads; the \<^verbatim>\<open>AttributeError\<close> is caught and
  the result is \<open>False\<close>.
\<close>

definition are_items_identical_by_type :: "path_env \<Rightarrow> data_type \<Rightarrow> datablock \<Rightarrow> datablock \<Rightarrow> bool" where
  "are_items_identical_by_type penv data_collection item1 item2 =
     (case data_collection of
        Materials \<Rightarrow>
          (case (db_data item1, db_data item2) of
             (MaterialData m1, MaterialData m2) \<Rightarrow> are_materials_identical m1 m2
           | _ \<Rightarrow> False)
      | NodeGroups \<Rightarrow>
          (case (db_data item1, db_data item2) of
             (NodeGroupData g1, NodeGroupData g2) \<Rightarrow> are_node_groups_identical g1 g2
           | _ \<Rightarrow> False)
      | Images \<Rightarrow>
          (case (db_data item1, db_data item2) of
             (ImageData i1, ImageData i2) \<Rightarrow> are_images_identical penv i1 i2
           | _ \<Rightarrow> False))"


subsection \<open>CleanUp.py: conflict analysis\<close>

record identity_group =
  representative :: datablock
  members :: "datablock list"

text \<open>
  The inner loop of \<open>group_items_by_identity\<close>: the item joins the first group whose
  representative it is identical to; \<open>None\<close> when there is none.
\<close>

fun place_in_group ::
  "(datablock \<Rightarrow> datablock \<Rightarrow> bool) \<Rightarrow> datablock \<Rightarrow> identity_group list \<Rightarrow> identity_group list option" where
  "place_in_group identical item [] = None"
| "place_in_group identical item (g # gs) =
     (if identical item (representative g) then Some (g\<lparr>members := members g @ [item]\<rparr> # gs)
      else (case place_in_group identical item gs of
              None \<Rightarrow> None
            | Some gs' \<Rightarrow> Some (g # gs')))"

definition add_item_to_groups ::
  "(datablock \<Rightarrow> datablock \<Rightarrow> bool) \<Rightarrow> identity_group list \<Rightarrow> datablock \<Rightarrow> identity_group list" where
  "add_item_to_groups identical identity_groups item =
     (case place_in_group identical item identity_groups of
        Some gs \<Rightarrow> gs
      | None \<Rightarrow> identity_groups @ [\<lparr>representative = item, members = [item]\<rparr>])"

definition group_items_by_identity :: "path_env \<Rightarrow> data_type \<Rightarrow> datablock list \<Rightarrow> identity_group list" where
  "group_items_by_identity penv data_collection its =
     foldl (add_item_to_groups (are_items_identical_by_type penv data_collection)) [] its"

text \<open>\<^verbatim>\<open>base_groups.setdefault(base_name, []).append(item)\<close> on a dict in insertion order.\<close>

fun setdefault_append :: "('k \<times> 'a list) list \<Rightarrow> 'k \<Rightarrow> 'a \<Rightarrow> ('k \<times> 'a list) list" where
  "setdefault_append [] k x = [(k, [x])]"
| "setdefault_append ((k', xs) # kvs) k x =
     (if k' = k then (k', xs @ [x]) # kvs else (k', xs) # setdefault_append kvs k x)"

definition base_groups_of :: "datablock list \<Rightarrow> (ustring \<times> datablock list) list" where
  "base_groups_of coll = foldl (\<lambda>groups item. setdefault_append groups (get_base_name (db_name item)) item) [] coll"

record conflict_info =
  ci_items :: "datablock list"
  ci_local_items :: "datablock list"
  ci_linked_items :: "datablock list"
  ci_conflict_types :: "string list"
  ci_identity_groups :: "identity_group list"

definition conflict_info_of :: "path_env \<Rightarrow> data_type \<Rightarrow> datablock list \<Rightarrow> conflict_info" where
  "conflict_info_of penv data_collection its =
     (let identity_groups = group_items_by_identity penv data_collection its;
          local_items = filter (\<lambda>i. \<not> is_linked_data i) its;
          linked_items = filter is_linked_data its
      in \<lparr>ci_items = its, ci_local_items = local_items, ci_linked_items = linked_items,
          ci_conflict_types =
            (if length local_items > 1 then [''Local Duplicates''] else [])
            @ (if length linked_items > 1 then [''Multiple Linked''] else [])
            @ (if local_items \<noteq> [] \<and> linked_items \<noteq> [] then [''Local and Linked''] else [])
            @ (if length identity_groups > 1 then [''Non Identical''] else []),
          ci_identity_groups = identity_groups\<rparr>)"

definition analyze_data_conflicts_with_grouping ::
  "path_env \<Rightarrow> data_type \<Rightarrow> datablock list \<Rightarrow> (ustring \<times> conflict_info) list" where
  "analyze_data_conflicts_with_grouping penv data_collection coll =
     map (\<lambda>(base_name, its). (base_name, conflict_info_of penv data_collection its))
       (filter (\<lambda>(base_name, its). \<not> length its \<le> 1) (base_groups_of coll))"

text \<open>
  The invariant of the loop that builds \<open>base_groups\<close>: after the items \<open>seen\<close>, each
  base name met has one entry, and the entry holds the items of that base name in order.
\<close>

definition grouped_by_base :: "(ustring \<times> datablock list) list \<Rightarrow> datablock list \<Rightarrow> bool" where
  "grouped_by_base groups seen = (distinct (map fst groups)
     \<and> (\<forall>k. map_of groups k =
          (if filter (\<lambda>i. get_base_name (db_name i) = k) seen = [] then None
           else Some (filter (\<lambda>i. get_base_name (db_name i) = k) seen))))"

text \<open>
  The invariant of the loop of \<open>group_items_by_identity\<close>: the first member of a group is
  its representative, and each member is identical to it under the comparison.
\<close>

definition well_grouped :: "(datablock \<Rightarrow> datablock \<Rightarrow> bool) \<Rightarrow> identity_group list \<Rightarrow> bool" where
  "well_grouped identical gs = (\<forall>g \<in> set gs. members g \<noteq> [] \<and> representative g = hd (members g)
     \<and> (\<forall>m \<in> set (members g). identical m (representative g)))"

subsection \<open>CleanUp.py: the scene and the remapping of each operator\<close>

record modifier =
  mod_type :: string
  mod_node_group :: "ptr option"

record object =
  material_slots :: "ptr option list"
  modifiers :: "modifier list"

record world =
  world_nodes :: "node list option"

text \<open>\<^verbatim>\<open>bpy.data\<close>, as far as the cleanup reads and writes it.\<close>

record bpy_data =
  objects :: "object list"
  materials :: "datablock list"
  node_groups :: "datablock list"
  images :: "datablock list"
  worlds :: "world list"

text \<open>\<open>self.data_collection\<close>: \<^verbatim>\<open>getattr(bpy.data, self.config.collection_attr)\<close>.\<close>

definition data_collection :: "data_type \<Rightarrow> bpy_data \<Rightarrow> datablock list" where
  "data_collection dt bd = (case dt of Materials \<Rightarrow> materials bd | NodeGroups \<Rightarrow> node_groups bd
     | Images \<Rightarrow> images bd)"

text \<open>\<^verbatim>\<open>collection.remove(item)\<close> takes the datablock with the item's pointer out.\<close>

definition collection_remove :: "data_type \<Rightarrow> datablock \<Rightarrow> bpy_data \<Rightarrow> bpy_data" where
  "collection_remove dt item bd =
     (case dt of
        Materials \<Rightarrow> bd\<lparr>materials := filter (\<lambda>i. db_ptr i \<noteq> db_ptr item) (materials bd)\<rparr>
      | NodeGroups \<Rightarrow> bd\<lparr>node_groups := filter (\<lambda>i. db_ptr i \<noteq> db_ptr item) (node_groups bd)\<rparr>
      | Images \<Rightarrow> bd\<lparr>images := filter (\<lambda>i. db_ptr i \<noteq> db_ptr item) (images bd)\<rparr>)"

text \<open>The loops over the nodes of a node group, of a material's node tree and of a world's.\<close>

definition map_group_nodes :: "(node \<Rightarrow> node) \<Rightarrow> datablock \<Rightarrow> datablock" where
  "map_group_nodes f ng =
     (case db_data ng of
        NodeGroupData g \<Rightarrow> ng\<lparr>db_data := NodeGroupData (g\<lparr>ng_nodes := map f (ng_nodes g)\<rparr>)\<rparr>
      | _ \<Rightarrow> ng)"

definition map_material_nodes :: "(node \<Rightarrow> node) \<Rightarrow> datablock \<Rightarrow> datablock" where
  "map_material_nodes f mat =
     (case db_data mat of
        MaterialData m \<Rightarrow>
          (case mat_nodes m of
             None \<Rightarrow> mat
           | Some ns \<Rightarrow> mat\<lparr>db_data := MaterialData (m\<lparr>mat_nodes := Some (map f ns)\<rparr>)\<rparr>)
      | _ \<Rightarrow> mat)"

definition map_world_nodes :: "(node \<Rightarrow> node) \<Rightarrow> world \<Rightarrow> world" where
  "map_world_nodes f w =
     (case world_nodes w of None \<Rightarrow> w | Some ns \<Rightarrow> w\<lparr>world_nodes := Some (map f ns)\<rparr>)"

text \<open>\<open>CLEANUP_OT_clean_materials._remap_data\<close>: object slots, then nodes of node groups.\<close>

definition remap_material_node :: "ptr \<Rightarrow> ptr \<Rightarrow> node \<Rightarrow> node" where
  "remap_material_node old_mat new_mat n =
     (if node_material n = Some old_mat then n\<lparr>node_material := Some new_mat\<rparr> else n)"

definition remap_materials :: "ptr \<Rightarrow> ptr \<Rightarrow> bpy_data \<Rightarrow> bpy_data" where
  "remap_materials old_mat new_mat bd =
     bd\<lparr>objects := map (\<lambda>obj. obj\<lparr>material_slots :=
            map (\<lambda>slot. if slot = Some old_mat then Some new_mat else slot) (material_slots obj)\<rparr>)
          (objects bd),
        node_groups := map (map_group_nodes (remap_material_node old_mat new_mat)) (node_groups bd)\<rparr>"

text \<open>
  \<open>CLEANUP_OT_clean_node_groups._remap_data\<close>: group nodes of the other node groups,
  geometry-node modifiers, group nodes of material and of world node trees.
\<close>

definition remap_group_node :: "ptr \<Rightarrow> ptr \<Rightarrow> node \<Rightarrow> node" where
  "remap_group_node old_ng new_ng n =
     (if node_type n = ''GROUP'' \<and> node_tree_ref n = Some old_ng then n\<lparr>node_tree_ref := Some new_ng\<rparr>
      else n)"

definition remap_node_groups :: "ptr \<Rightarrow> ptr \<Rightarrow> bpy_data \<Rightarrow> bpy_data" where
  "remap_node_groups old_ng new_ng bd =
     bd\<lparr>node_groups := map (\<lambda>ng. if db_ptr ng = old_ng then ng
                                  else map_group_nodes (remap_group_node old_ng new_ng) ng)
          (node_groups bd),
        objects := map (\<lambda>obj. obj\<lparr>modifiers :=
            map (\<lambda>md. if mod_type md = ''NODES'' \<and> mod_node_group md = Some old_ng
                       then md\<lparr>mod_node_group := Some new_ng\<rparr> else md) (modifiers obj)\<rparr>)
          (objects bd),
        materials := map (map_material_nodes (remap_group_node old_ng new_ng)) (materials bd),
        worlds := map (map_world_nodes (remap_group_node old_ng new_ng)) (worlds bd)\<rparr>"

text \<open>
  \<open>CLEANUP_OT_clean_images._remap_data\<close>: image texture nodes of materials, of node groups
  and of world shaders.
\<close>

definition remap_image_node :: "ptr \<Rightarrow> ptr \<Rightarrow> node \<Rightarrow> node" where
  "remap_image_node old_img new_img n =
     (if node_type n = ''TEX_IMAGE'' \<and> node_image n = Some old_img then n\<lparr>node_image := Some new_img\<rparr>
      else n)"

definition remap_images :: "ptr \<Rightarrow> ptr \<Rightarrow> bpy_data \<Rightarrow> bpy_data" where
  "remap_images old_img new_img bd =
     bd\<lparr>materials := map (map_material_nodes (remap_image_node old_img new_img)) (materials bd),
        node_groups := map (map_group_nodes (remap_image_node old_img new_img)) (node_groups bd),
        worlds := map (map_world_nodes (remap_image_node old_img new_img)) (worlds bd)\<rparr>"

text \<open>\<open>self._remap_data\<close>: the subclass of the operator decides.\<close>

definition remap_by_type :: "data_type \<Rightarrow> ptr \<Rightarrow> ptr \<Rightarrow> bpy_data \<Rightarrow> bpy_data" where
  "remap_by_type dt old_ptr new_ptr bd =
     (case dt of
        Materials \<Rightarrow> remap_materials old_ptr new_ptr bd
      | NodeGroups \<Rightarrow> remap_node_groups old_ptr new_ptr bd
      | Images \<Rightarrow> remap_images old_ptr new_ptr bd)"

text \<open>
  The consumers each \<open>_remap_data\<close> visits, as a test: some consumer of the kind refers to
  the datablock \<open>p\<close>.
\<close>

definition nodes_of_group :: "datablock \<Rightarrow> node list" where
  "nodes_of_group ng = (case db_data ng of NodeGroupData g \<Rightarrow> ng_nodes g | _ \<Rightarrow> [])"

definition nodes_of_material :: "datablock \<Rightarrow> node list" where
  "nodes_of_material mat =
     (case db_data mat of
        MaterialData m \<Rightarrow> (case mat_nodes m of None \<Rightarrow> [] | Some ns \<Rightarrow> ns)
      | _ \<Rightarrow> [])"

definition nodes_of_world :: "world \<Rightarrow> node list" where
  "nodes_of_world w = (case world_nodes w of None \<Rightarrow> [] | Some ns \<Rightarrow> ns)"

definition consumer_refers :: "data_type \<Rightarrow> ptr \<Rightarrow> bpy_data \<Rightarrow> bool" where
  "consumer_refers dt p bd =
     (case dt of
        Materials \<Rightarrow>
          list_ex (\<lambda>obj. list_ex (\<lambda>slot. slot = Some p) (material_slots obj)) (objects bd)
          \<or> list_ex (\<lambda>ng. list_ex (\<lambda>n. node_material n = Some p) (nodes_of_group ng)) (node_groups bd)
      | NodeGroups \<Rightarrow>
          list_ex (\<lambda>ng. db_ptr ng \<noteq> p
                    \<and> list_ex (\<lambda>n. node_type n = ''GROUP'' \<and> node_tree_ref n = Some p) (nodes_of_group ng))
            (node_groups bd)
          \<or> list_ex (\<lambda>obj. list_ex (\<lambda>md. mod_type md = ''NODES'' \<and> mod_node_group md = Some p)
                      (modifiers obj)) (objects bd)
          \<or> list_ex (\<lambda>mat. list_ex (\<lambda>n. node_type n = ''GROUP'' \<and> node_tree_ref n = Some p)
                      (nodes_of_material mat)) (materials bd)
          \<or> list_ex (\<lambda>w. list_ex (\<lambda>n. node_type n = ''GROUP'' \<and> node_tree_ref n = Some p)
                      (nodes_of_world w)) (worlds bd)
      | Images \<Rightarrow>
          list_ex (\<lambda>mat. list_ex (\<lambda>n. node_type n = ''TEX_IMAGE'' \<and> node_image n = Some p)
                      (nodes_of_material mat)) (materials bd)
          \<or> list_ex (\<lambda>ng. list_ex (\<lambda>n. node_type n = ''TEX_IMAGE'' \<and> node_image n = Some p)
                      (nodes_of_group ng)) (node_groups bd)
          \<or> list_ex (\<lambda>w. list_ex (\<lambda>n. node_type n = ''TEX_IMAGE'' \<and> node_image n = Some p)
                      (nodes_of_world w)) (worlds bd))"

subsection \<open>CleanUp.py: the cleanup operators\<close>

text \<open>The calls of \<open>_remap_data\<close> and of \<^verbatim>\<open>remove\<close>, in the order they are made.\<close>

datatype event = Remap ptr ptr | Remove ptr

text \<open>
  The state an execution works on: \<^verbatim>\<open>bpy.data\<close>, the module's \<open>_conflict_selections\<close>, the
  calls made so far, and the counters of the report (the text of the report is not
  modelled).
\<close>

record cleanup_state =
  bdata :: bpy_data
  conflict_selections :: "data_type \<Rightarrow> ustring \<rightharpoonup> ustring"
  trace :: "event list"
  processed :: int
  skipped :: int
  skipped_linked :: int
  no_choice_needed :: int
  no_linked_available :: int

datatype resolution = AUTO_CLEAN | CHOOSE_DATA | KEEP_LINKED

definition global_resolution_default :: resolution where
  "global_resolution_default = AUTO_CLEAN"

text \<open>
  An item of \<open>self.conflicts\<close> (a \<open>CLEANUP_ConflictItem\<close>) with the two properties the
  executions read, and the operator with its properties.
\<close>

record conflict_item =
  item_base_name :: ustring
  skip_this_conflict :: bool

record cleanup_operator =
  DATA_TYPE :: data_type
  force_remap :: bool
  conflicts :: "conflict_item list"
  has_conflicts :: bool
  global_resolution :: resolution

definition remap_data :: "data_type \<Rightarrow> datablock \<Rightarrow> datablock \<Rightarrow> cleanup_state \<Rightarrow> cleanup_state" where
  "remap_data dt old_data new_data st =
     st\<lparr>bdata := remap_by_type dt (db_ptr old_data) (db_ptr new_data) (bdata st),
        trace := trace st @ [Remap (db_ptr old_data) (db_ptr new_data)]\<rparr>"

definition remove_item :: "data_type \<Rightarrow> datablock \<Rightarrow> cleanup_state \<Rightarrow> cleanup_state" where
  "remove_item dt item st =
     st\<lparr>bdata := collection_remove dt item (bdata st), trace := trace st @ [Remove (db_ptr item)]\<rparr>"

text \<open>
  The three lines every strategy runs for an item it deletes:
  \<^verbatim>\<open>self._remap_data(member, representative)\<close>, \<^verbatim>\<open>self.data_collection.remove(member)\<close>,
  \<^verbatim>\<open>processed += 1\<close>.
\<close>

definition remap_and_remove :: "data_type \<Rightarrow> datablock \<Rightarrow> datablock \<Rightarrow> cleanup_state \<Rightarrow> cleanup_state" where
  "remap_and_remove dt member target st =
     (let st1 = remap_data dt member target st;
          st2 = remove_item dt member st1
      in st2\<lparr>processed := processed st2 + 1\<rparr>)"

definition reset_counters :: "cleanup_state \<Rightarrow> cleanup_state" where
  "reset_counters st = st\<lparr>processed := 0, skipped := 0, skipped_linked := 0, no_choice_needed := 0,
     no_linked_available := 0\<rparr>"

definition items_with_base :: "data_type \<Rightarrow> ustring \<Rightarrow> cleanup_state \<Rightarrow> datablock list" where
  "items_with_base dt b st =
     filter (\<lambda>i. get_base_name (db_name i) = b) (data_collection dt (bdata st))"

text \<open>
  The loop over the members of an identity group, in \<open>_standard_cleanup_with_grouping\<close>
  (which counts the linked members it passes over) and in \<open>_auto_clean_execution\<close> (which
  does not).
\<close>

definition clean_members ::
  "data_type \<Rightarrow> bool \<Rightarrow> datablock \<Rightarrow> datablock list \<Rightarrow> cleanup_state \<Rightarrow> cleanup_state" where
  "clean_members dt count_linked repr ms st =
     foldl (\<lambda>st member.
              if db_ptr member = db_ptr repr then st
              else if is_linked_data member
                then (if count_linked then st\<lparr>skipped_linked := skipped_linked st + 1\<rparr> else st)
              else remap_and_remove dt member repr st) st ms"

text \<open>
  One identity group: nothing for a group of one; else the first local member is kept, or
  the first member when none is local.
\<close>

definition clean_group :: "data_type \<Rightarrow> bool \<Rightarrow> identity_group \<Rightarrow> cleanup_state \<Rightarrow> cleanup_state" where
  "clean_group dt count_linked g st =
     (case members g of
        [] \<Rightarrow> st
      | [m] \<Rightarrow> st
      | m # ms \<Rightarrow>
          (let local_members = filter (\<lambda>x. \<not> is_linked_data x) (members g);
               repr = (case local_members of l # ls \<Rightarrow> l | [] \<Rightarrow> m)
           in clean_members dt count_linked repr (members g) st))"

text \<open>The items of one base name: grouped by identity, then group by group.\<close>

definition clean_base_group ::
  "path_env \<Rightarrow> data_type \<Rightarrow> bool \<Rightarrow> datablock list \<Rightarrow> cleanup_state \<Rightarrow> cleanup_state" where
  "clean_base_group penv dt count_linked its st =
     (if length its \<le> 1 then st
      else foldl (\<lambda>st g. clean_group dt count_linked g st) st (group_items_by_identity penv dt its))"

definition standard_cleanup_with_grouping :: "path_env \<Rightarrow> data_type \<Rightarrow> cleanup_state \<Rightarrow> cleanup_state" where
  "standard_cleanup_with_grouping penv dt st =
     foldl (\<lambda>st (b, its). clean_base_group penv dt True its st) (reset_counters st)
       (base_groups_of (data_collection dt (bdata st)))"

text \<open>One round of the loop of \<open>_auto_clean_execution\<close> over the conflicts it analysed.\<close>

definition auto_clean_conflict ::
  "path_env \<Rightarrow> data_type \<Rightarrow> ustring \<times> conflict_info \<Rightarrow> cleanup_state \<Rightarrow> cleanup_state" where
  "auto_clean_conflict penv dt conflict st =
     (case conflict of (conflict_base_name, info) \<Rightarrow>
        if \<not> list_ex (\<lambda>g. length (filter (\<lambda>m. \<not> is_linked_data m) (members g)) > 1)
                 (ci_identity_groups info)
        then st\<lparr>skipped := skipped st + int (length (items_with_base dt conflict_base_name st)) - 1\<rparr>
        else
          (let its = items_with_base dt conflict_base_name st;
               base_groups = (if its = [] then [] else [(conflict_base_name, its)])
           in foldl (\<lambda>st (b, its). clean_base_group penv dt False its st) st base_groups))"

definition auto_clean_execution :: "path_env \<Rightarrow> data_type \<Rightarrow> cleanup_state \<Rightarrow> cleanup_state" where
  "auto_clean_execution penv dt st =
     foldl (\<lambda>st conflict. auto_clean_conflict penv dt conflict st) (reset_counters st)
       (analyze_data_conflicts_with_grouping penv dt (data_collection dt (bdata st)))"

text \<open>One round of the loop of \<open>_choose_data_execution\<close> over \<open>self.conflicts\<close>.\<close>

definition choose_data_conflict :: "data_type \<Rightarrow> conflict_item \<Rightarrow> cleanup_state \<Rightarrow> cleanup_state" where
  "choose_data_conflict dt conflict st =
     (let all_items = items_with_base dt (item_base_name conflict) st in
      if skip_this_conflict conflict then st\<lparr>skipped := skipped st + int (length all_items) - 1\<rparr>
      else
        (let local_items = filter (\<lambda>i. \<not> is_linked_data i) all_items in
         if length local_items < 2
         then st\<lparr>no_choice_needed :=
                   no_choice_needed st + (if all_items \<noteq> [] then int (length all_items) - 1 else 0)\<rparr>
         else
           (case conflict_selections st dt (item_base_name conflict) of
              None \<Rightarrow> st
            | Some selected_name \<Rightarrow>
                if selected_name = [] then st
                else
                  (case find (\<lambda>item. db_name item = selected_name) all_items of
                     None \<Rightarrow> st
                   | Some target \<Rightarrow>
                       foldl (\<lambda>st item.
                                if db_ptr item \<noteq> db_ptr target \<and> \<not> is_linked_data item
                                then remap_and_remove dt item target st else st) st all_items))))"

definition choose_data_execution :: "data_type \<Rightarrow> cleanup_operator \<Rightarrow> cleanup_state \<Rightarrow> cleanup_state" where
  "choose_data_execution dt op st =
     (let st1 = foldl (\<lambda>st conflict. choose_data_conflict dt conflict st) (reset_counters st) (conflicts op)
      in st1\<lparr>conflict_selections := (conflict_selections st1)(dt := Map.empty)\<rparr>)"

text \<open>
  One round of the loop of \<open>_keep_linked_execution\<close>; \<open>analysis\<close> is the conflict analysis
  made before the loop. Nothing of the model raises, so the \<^verbatim>\<open>except\<close> branch is not
  there.
\<close>

definition keep_linked_conflict ::
  "data_type \<Rightarrow> (ustring \<times> conflict_info) list \<Rightarrow> conflict_item \<Rightarrow> cleanup_state \<Rightarrow> cleanup_state" where
  "keep_linked_conflict dt analysis conflict st =
     (if skip_this_conflict conflict
      then st\<lparr>skipped := skipped st + int (length (items_with_base dt (item_base_name conflict) st)) - 1\<rparr>
      else
        (case map_of analysis (item_base_name conflict) of
           None \<Rightarrow> st
         | Some conflict_info \<Rightarrow>
             (let all_items = ci_items conflict_info;
                  linked_items = filter is_linked_data all_items;
                  local_items = filter (\<lambda>item. \<not> is_linked_data item) all_items
              in case linked_items of
                   [] \<Rightarrow> st\<lparr>no_linked_available := no_linked_available st + int (length local_items)\<rparr>
                 | target_linked # rest \<Rightarrow>
                     foldl (\<lambda>st local_item. remap_and_remove dt local_item target_linked st) st local_items)))"

definition keep_linked_execution ::
  "path_env \<Rightarrow> data_type \<Rightarrow> cleanup_operator \<Rightarrow> cleanup_state \<Rightarrow> cleanup_state" where
  "keep_linked_execution penv dt op st =
     (let analysis = analyze_data_conflicts_with_grouping penv dt (data_collection dt (bdata st))
      in foldl (\<lambda>s conflict. keep_linked_conflict dt analysis conflict s) (reset_counters st)
           (conflicts op))"

text \<open>
  \<open>_conflict_cleanup_with_grouping\<close>, the last branch of \<open>execute\<close>. Two groups are equal
  (\<^verbatim>\<open>group == target_group\<close>) when their representatives and their members are the same
  datablocks.
\<close>

definition same_group :: "identity_group \<Rightarrow> identity_group \<Rightarrow> bool" where
  "same_group g1 g2 = (db_ptr (representative g1) = db_ptr (representative g2)
     \<and> map db_ptr (members g1) = map db_ptr (members g2))"

definition conflict_cleanup_conflict ::
  "data_type \<Rightarrow> (ustring \<times> conflict_info) list \<Rightarrow> conflict_item \<Rightarrow> cleanup_state \<Rightarrow> cleanup_state" where
  "conflict_cleanup_conflict dt analysis conflict st =
     (if skip_this_conflict conflict
      then st\<lparr>skipped := skipped st + int (length (items_with_base dt (item_base_name conflict) st)) - 1\<rparr>
      else
        (case map_of analysis (item_base_name conflict) of
           None \<Rightarrow> st
         | Some conflict_info \<Rightarrow>
             (case conflict_selections st dt (item_base_name conflict) of
                None \<Rightarrow> st
              | Some selected_name \<Rightarrow>
                  if selected_name = [] then st
                  else
                    (case find (\<lambda>g. db_name (representative g) = selected_name)
                            (ci_identity_groups conflict_info) of
                       None \<Rightarrow> st
                     | Some target_group \<Rightarrow>
                         foldl (\<lambda>st g.
                                  if same_group g target_group
                                  then foldl (\<lambda>st member.
                                         if db_ptr member \<noteq> db_ptr (representative target_group)
                                            \<and> \<not> is_linked_data member
                                         then remap_and_remove dt member (representative target_group) st
                                         else st) st (members g)
                                  else foldl (\<lambda>st member.
                                         if db_ptr member \<noteq> db_ptr (representative g)
                                            \<and> \<not> is_linked_data member
                                         then remap_and_remove dt member (representative g) st
                                         else st) st (members g))
                           st (ci_identity_groups conflict_info)))))"

definition conflict_cleanup_with_grouping ::
  "path_env \<Rightarrow> data_type \<Rightarrow> cleanup_operator \<Rightarrow> cleanup_state \<Rightarrow> cleanup_state" where
  "conflict_cleanup_with_grouping penv dt op st =
     (let analysis = analyze_data_conflicts_with_grouping penv dt (data_collection dt (bdata st));
          st1 = foldl (\<lambda>s conflict. conflict_cleanup_conflict dt analysis conflict s)
                  (reset_counters st) (conflicts op)
      in st1\<lparr>conflict_selections := (conflict_selections st1)(dt := Map.empty)\<rparr>)"

text \<open>
  \<open>execute\<close>. The property \<open>global_resolution\<close> is an enum of three items, so the last
  branch of the source, which calls \<open>_conflict_cleanup_with_grouping\<close>, is never taken.
\<close>

definition execute :: "path_env \<Rightarrow> cleanup_operator \<Rightarrow> cleanup_state \<Rightarrow> cleanup_state" where
  "execute penv op st =
     (if \<not> has_conflicts op then standard_cleanup_with_grouping penv (DATA_TYPE op) st
      else (case global_resolution op of
              AUTO_CLEAN \<Rightarrow> auto_clean_execution penv (DATA_TYPE op) st
            | CHOOSE_DATA \<Rightarrow> choose_data_execution (DATA_TYPE op) op st
            | KEEP_LINKED \<Rightarrow> keep_linked_execution penv (DATA_TYPE op) op st))"

subsection \<open>What a cleanup run keeps: the invariant of the strategies\<close>

text \<open>
  A datablock without the references its nodes hold. The remapping changes those
  references and nothing else of a datablock, and no comparison reads them.
\<close>

definition erase_node :: "node \<Rightarrow> node" where
  "erase_node n = n\<lparr>node_tree_ref := None, node_image := None, node_material := None\<rparr>"

definition erase_refs :: "datablock \<Rightarrow> datablock" where
  "erase_refs d =
     (case db_data d of
        MaterialData m \<Rightarrow>
          d\<lparr>db_data := MaterialData (m\<lparr>mat_nodes := map_option (map erase_node) (mat_nodes m)\<rparr>)\<rparr>
      | NodeGroupData g \<Rightarrow> d\<lparr>db_data := NodeGroupData (g\<lparr>ng_nodes := map erase_node (ng_nodes g)\<rparr>)\<rparr>
      | ImageData i \<Rightarrow> d)"

definition erased_collection :: "data_type \<Rightarrow> cleanup_state \<Rightarrow> datablock list" where
  "erased_collection dt st = map erase_refs (data_collection dt (bdata st))"

text \<open>The two calls made for one deleted item \<open>x\<close> that is remapped to \<open>y\<close>.\<close>

definition calls_for :: "datablock \<times> datablock \<Rightarrow> event list" where
  "calls_for xy = [Remap (db_ptr (fst xy)) (db_ptr (snd xy)), Remove (db_ptr (fst xy))]"

text \<open>
  From \<open>st\<close> to \<open>st'\<close> the run made, for a list of pairs that satisfy \<open>Q\<close>, the two calls of
  each pair in turn and nothing else, the collection lost the first components of the
  pairs and nothing else, and the selections are as they were.
\<close>

definition cleans ::
  "data_type \<Rightarrow> (datablock \<Rightarrow> datablock \<Rightarrow> bool) \<Rightarrow> cleanup_state \<Rightarrow> cleanup_state \<Rightarrow> bool" where
  "cleans dt Q st st' =
     (\<exists>pairs. trace st' = trace st @ concat (map calls_for pairs)
        \<and> list_all (\<lambda>xy. Q (fst xy) (snd xy)) pairs
        \<and> erased_collection dt st'
            = filter (\<lambda>e. db_ptr e \<notin> set (map (db_ptr \<circ> fst) pairs)) (erased_collection dt st)
        \<and> conflict_selections st' = conflict_selections st)"

text \<open>
  The pairs a strategy may make: \<open>x\<close>, deleted, is a local item of the collection as it
  was at the start (\<open>E0\<close>, without node references); \<open>y\<close>, kept, is another item of the same
  base name.
\<close>

definition removed_pair :: "datablock list \<Rightarrow> datablock \<Rightarrow> datablock \<Rightarrow> bool" where
  "removed_pair E0 x y =
     (x \<in> set E0 \<and> y \<in> set E0 \<and> \<not> is_linked_data x
      \<and> get_base_name (db_name x) = get_base_name (db_name y) \<and> db_ptr x \<noteq> db_ptr y)"

text \<open>
  Both are in one identity group: each is the group's representative \<open>r\<close> or identical to
  it under the comparison of the collection.
\<close>

definition identical_pair :: "path_env \<Rightarrow> data_type \<Rightarrow> datablock list \<Rightarrow> datablock \<Rightarrow> datablock \<Rightarrow> bool" where
  "identical_pair penv dt E0 x y =
     (removed_pair E0 x y
      \<and> (\<exists>r \<in> set E0. (x = r \<or> are_items_identical_by_type penv dt x r)
                       \<and> (y = r \<or> are_items_identical_by_type penv dt y r)))"

text \<open>The kept item \<open>y\<close> has the name selected for the base name of \<open>x\<close>.\<close>

definition chosen_pair :: "(ustring \<rightharpoonup> ustring) \<Rightarrow> datablock list \<Rightarrow> datablock \<Rightarrow> datablock \<Rightarrow> bool" where
  "chosen_pair selection E0 x y =
     (removed_pair E0 x y \<and> selection (get_base_name (db_name x)) = Some (db_name y))"

text \<open>The kept item \<open>y\<close> is the first linked item that has the base name of \<open>x\<close>.\<close>

definition linked_pair :: "datablock list \<Rightarrow> datablock \<Rightarrow> datablock \<Rightarrow> bool" where
  "linked_pair E0 x y =
     (removed_pair E0 x y
      \<and> find is_linked_data (filter (\<lambda>i. get_base_name (db_name i) = get_base_name (db_name x)) E0)
          = Some y)"

text \<open>
  The states the five executions of the operator can end in, from one state: the standard
  cleanup, the three strategies, and the cleanup of the last branch of \<open>execute\<close>.
\<close>

definition strategy_results ::
  "path_env \<Rightarrow> data_type \<Rightarrow> cleanup_operator \<Rightarrow> cleanup_state \<Rightarrow> cleanup_state list" where
  "strategy_results penv dt op st =
     [standard_cleanup_with_grouping penv dt st, auto_clean_execution penv dt st,
      choose_data_execution dt op st, keep_linked_execution penv dt op st,
      conflict_cleanup_with_grouping penv dt op st]"

text \<open>
  A list of calls in which every \<^verbatim>\<open>remove\<close> of a datablock comes right after the
  \<open>_remap_data\<close> of that datablock to another one, and nothing else occurs.
\<close>

fun remap_precedes_remove :: "event list \<Rightarrow> bool" where
  "remap_precedes_remove [] = True"
| "remap_precedes_remove (Remap a b # Remove c # es) = (a = c \<and> a \<noteq> b \<and> remap_precedes_remove es)"
| "remap_precedes_remove es = False"

section \<open>Theorems\<close>

subsection \<open>Base names\<close>

lemma match_suffix_iff:
  assumes "u_newline \<notin> set s"
  shows "match_suffix s = Some g \<longleftrightarrow>
     (\<exists>a b c. s = [u_dot, a, b, c] \<and> is_decimal a \<and> is_decimal b \<and> is_decimal c \<and> g = [a, b, c])"
  using assms by (auto simp: match_suffix_def split: list.splits if_splits)

lemma lazy_group_iff:
  assumes "u_newline \<notin> set s"
  shows "lazy_group pre s = Some (g1, g2) \<longleftrightarrow>
     (\<exists>p a b c. p \<noteq> [] \<and> s = p @ [u_dot, a, b, c] \<and> is_decimal a \<and> is_decimal b \<and> is_decimal c
        \<and> g1 = pre @ p \<and> g2 = [a, b, c])"
  using assms
proof (induction s arbitrary: pre)
  case Nil
  then show ?case by simp
next
  case (Cons x xs)
  have nl: "u_newline \<notin> set xs" "x \<noteq> u_newline" using Cons.prems by auto
  show ?case
  proof (cases "match_suffix xs")
    case None
    then have no: "\<not> (\<exists>a b c. xs = [u_dot, a, b, c] \<and> is_decimal a \<and> is_decimal b \<and> is_decimal c)"
      using match_suffix_iff [OF nl(1)] by (metis option.distinct(1))
    have "lazy_group pre (x # xs) = lazy_group (pre @ [x]) xs"
      using None nl by simp
    also have "\<dots> = Some (g1, g2) \<longleftrightarrow>
      (\<exists>p a b c. p \<noteq> [] \<and> xs = p @ [u_dot, a, b, c] \<and> is_decimal a \<and> is_decimal b \<and> is_decimal c
        \<and> g1 = (pre @ [x]) @ p \<and> g2 = [a, b, c])"
      by (rule Cons.IH [OF nl(1)])
    also have "\<dots> \<longleftrightarrow>
      (\<exists>p a b c. p \<noteq> [] \<and> x # xs = p @ [u_dot, a, b, c] \<and> is_decimal a \<and> is_decimal b \<and> is_decimal c
        \<and> g1 = pre @ p \<and> g2 = [a, b, c])" (is "?L \<longleftrightarrow> ?R")
    proof
      assume ?L
      then obtain p a b c where "p \<noteq> []" "xs = p @ [u_dot, a, b, c]" "is_decimal a" "is_decimal b"
        "is_decimal c" "g1 = (pre @ [x]) @ p" "g2 = [a, b, c]" by blast
      then have "x # p \<noteq> [] \<and> x # xs = (x # p) @ [u_dot, a, b, c] \<and> is_decimal a \<and> is_decimal b
        \<and> is_decimal c \<and> g1 = pre @ (x # p) \<and> g2 = [a, b, c]" by simp
      then show ?R by blast
    next
      assume ?R
      then obtain p a b c where p: "p \<noteq> []" "x # xs = p @ [u_dot, a, b, c]" "is_decimal a"
        "is_decimal b" "is_decimal c" "g1 = pre @ p" "g2 = [a, b, c]" by blast
      then obtain q where q: "p = x # q" by (cases p) auto
      with p have xs: "xs = q @ [u_dot, a, b, c]" by simp
      have "q \<noteq> []" using no xs p by auto
      then have "q \<noteq> [] \<and> xs = q @ [u_dot, a, b, c] \<and> is_decimal a \<and> is_decimal b
        \<and> is_decimal c \<and> g1 = (pre @ [x]) @ q \<and> g2 = [a, b, c]" using p q xs by simp
      then show ?L by blast
    qed
    finally show ?thesis .
  next
    case (Some g)
    then obtain a b c where xs: "xs = [u_dot, a, b, c]" "is_decimal a" "is_decimal b" "is_decimal c"
      "g = [a, b, c]"
      using match_suffix_iff [OF nl(1)] by blast
    have l: "lazy_group pre (x # xs) = Some (pre @ [x], g)" using Some nl by simp
    show ?thesis
    proof
      assume "lazy_group pre (x # xs) = Some (g1, g2)"
      then have "g1 = pre @ [x]" "g2 = g" using l by auto
      then have "[x] \<noteq> [] \<and> x # xs = [x] @ [u_dot, a, b, c] \<and> is_decimal a \<and> is_decimal b
        \<and> is_decimal c \<and> g1 = pre @ [x] \<and> g2 = [a, b, c]" using xs by simp
      then show "\<exists>p a b c. p \<noteq> [] \<and> x # xs = p @ [u_dot, a, b, c] \<and> is_decimal a \<and> is_decimal b
        \<and> is_decimal c \<and> g1 = pre @ p \<and> g2 = [a, b, c]" by blast
    next
      assume "\<exists>p a b c. p \<noteq> [] \<and> x # xs = p @ [u_dot, a, b, c] \<and> is_decimal a \<and> is_decimal b
        \<and> is_decimal c \<and> g1 = pre @ p \<and> g2 = [a, b, c]"
      then obtain p a' b' c' where p: "p \<noteq> []" "x # xs = p @ [u_dot, a', b', c']"
        "g1 = pre @ p" "g2 = [a', b', c']" by blast
      have "[x] @ [u_dot, a, b, c] = p @ [u_dot, a', b', c']" using p xs by simp
      then have "p = [x] \<and> a = a' \<and> b = b' \<and> c = c'" by simp
      then show "lazy_group pre (x # xs) = Some (g1, g2)" using l p xs by simp
    qed
  qed
qed

text \<open>
  C9 (amended). For a name without a newline character, \<open>get_base_name\<close> strips the
  suffix exactly when the name is a non-empty prefix followed by a dot and exactly three
  Unicode decimal digits (the characters that \<^verbatim>\<open>\d\<close> matches and \<^verbatim>\<open>int()\<close> reads, of any
  script) whose value is between 1 and 999, and then returns that prefix; every other
  such name is returned unchanged.
\<close>

theorem get_base_name_strips_suffix:
  assumes "u_newline \<notin> set name"
  shows "(\<forall>p a b c. name = p @ [u_dot, a, b, c] \<and> p \<noteq> [] \<and> is_decimal a \<and> is_decimal b \<and> is_decimal c
            \<and> 1 \<le> int_of_digits [a, b, c] \<and> int_of_digits [a, b, c] \<le> 999
          \<longrightarrow> get_base_name name = p)
       \<and> (\<not> (\<exists>p a b c. name = p @ [u_dot, a, b, c] \<and> p \<noteq> [] \<and> is_decimal a \<and> is_decimal b \<and> is_decimal c
            \<and> 1 \<le> int_of_digits [a, b, c] \<and> int_of_digits [a, b, c] \<le> 999)
          \<longrightarrow> get_base_name name = name)"
proof (intro conjI allI impI)
  fix p a b c
  assume h: "name = p @ [u_dot, a, b, c] \<and> p \<noteq> [] \<and> is_decimal a \<and> is_decimal b \<and> is_decimal c
            \<and> 1 \<le> int_of_digits [a, b, c] \<and> int_of_digits [a, b, c] \<le> 999"
  then have "lazy_group [] name = Some (p, [a, b, c])"
    using lazy_group_iff [OF assms, of "[]" p "[a, b, c]"] by auto
  then show "get_base_name name = p" using h by (simp add: get_base_name_def re_match_def)
next
  assume no: "\<not> (\<exists>p a b c. name = p @ [u_dot, a, b, c] \<and> p \<noteq> [] \<and> is_decimal a \<and> is_decimal b \<and> is_decimal c
            \<and> 1 \<le> int_of_digits [a, b, c] \<and> int_of_digits [a, b, c] \<le> 999)"
  show "get_base_name name = name"
  proof (cases "lazy_group [] name")
    case None
    then show ?thesis by (simp add: get_base_name_def re_match_def)
  next
    case (Some g)
    obtain g1 g2 where g: "g = (g1, g2)" by (cases g)
    from Some g obtain p a b c where "p \<noteq> []" "name = p @ [u_dot, a, b, c]" "is_decimal a"
      "is_decimal b" "is_decimal c" "g1 = p" "g2 = [a, b, c]"
      using lazy_group_iff [OF assms, of "[]" g1 g2] by auto
    with no have "\<not> (1 \<le> int_of_digits g2 \<and> int_of_digits g2 \<le> 999)" by blast
    then have "(if 1 \<le> int_of_digits g2 \<and> int_of_digits g2 \<le> 999 then g1 else name) = name"
      by (simp only: if_False)
    then show ?thesis using Some g by (simp add: get_base_name_def re_match_def)
  qed
qed

text \<open>
  \<^verbatim>\<open>Material.001\<close> is stripped to \<^verbatim>\<open>Material\<close>; \<^verbatim>\<open>Mat.\<close> followed by the Arabic-Indic digits
  zero, zero, one (U+0660, U+0660, U+0661) is stripped to \<^verbatim>\<open>Mat\<close>; \<^verbatim>\<open>Material.000\<close> and
  \<^verbatim>\<open>Material.01\<close> are returned unchanged.
\<close>

theorem get_base_name_strips_suffix_witness:
  "u_newline \<notin> set (ustr ''Material.001'')
   \<and> get_base_name (ustr ''Material.001'') = ustr ''Material''
   \<and> get_base_name (ustr ''Mat.'' @ [Decimal 0x660 0, Decimal 0x660 0, Decimal 0x661 1]) = ustr ''Mat''
   \<and> get_base_name (ustr ''Material.000'') = ustr ''Material.000''
   \<and> get_base_name (ustr ''Material.01'') = ustr ''Material.01''"
proof -
  have nl: "u_newline \<notin> set (ustr ''Material.001'')"
    by (simp add: u_newline_def ustr_def uchr_def)
  have d: "ustr ''Material.001'' = ustr ''Material'' @ [u_dot, Decimal 48 0, Decimal 48 0, Decimal 49 1]
      \<and> ustr ''Material'' \<noteq> [] \<and> is_decimal (Decimal 48 0) \<and> is_decimal (Decimal 48 0)
      \<and> is_decimal (Decimal 49 1)
      \<and> 1 \<le> int_of_digits [Decimal 48 0, Decimal 48 0, Decimal 49 1]
      \<and> int_of_digits [Decimal 48 0, Decimal 48 0, Decimal 49 1] \<le> 999"
    by (simp add: int_of_digits_def ustr_def uchr_def u_dot_def)
  have 1: "get_base_name (ustr ''Material.001'') = ustr ''Material''"
    using get_base_name_strips_suffix [OF nl] d by blast
  have nl2: "u_newline \<notin> set (ustr ''Mat.'' @ [Decimal 0x660 0, Decimal 0x660 0, Decimal 0x661 1])"
    by (simp add: u_newline_def ustr_def uchr_def)
  have d2: "ustr ''Mat.'' @ [Decimal 0x660 0, Decimal 0x660 0, Decimal 0x661 1]
        = ustr ''Mat'' @ [u_dot, Decimal 0x660 0, Decimal 0x660 0, Decimal 0x661 1]
      \<and> ustr ''Mat'' \<noteq> [] \<and> is_decimal (Decimal 0x660 0) \<and> is_decimal (Decimal 0x660 0)
      \<and> is_decimal (Decimal 0x661 1)
      \<and> 1 \<le> int_of_digits [Decimal 0x660 0, Decimal 0x660 0, Decimal 0x661 1]
      \<and> int_of_digits [Decimal 0x660 0, Decimal 0x660 0, Decimal 0x661 1] \<le> 999"
    by (simp add: int_of_digits_def ustr_def uchr_def u_dot_def)
  have 2: "get_base_name (ustr ''Mat.'' @ [Decimal 0x660 0, Decimal 0x660 0, Decimal 0x661 1]) = ustr ''Mat''"
    using get_base_name_strips_suffix [OF nl2] d2 by blast
  have 3: "get_base_name (ustr ''Material.000'') = ustr ''Material.000''"
    by (simp add: get_base_name_def re_match_def match_suffix_def int_of_digits_def ustr_def
        uchr_def u_dot_def u_newline_def)
  have 4: "get_base_name (ustr ''Material.01'') = ustr ''Material.01''"
    by (simp add: get_base_name_def re_match_def match_suffix_def int_of_digits_def ustr_def
        uchr_def u_dot_def u_newline_def)
  from nl 1 2 3 4 show ?thesis by simp
qed

text \<open>
  The claim as written fails on two names: \<^verbatim>\<open>.001\<close> ends in a dot and three digits of
  value 1 and is returned unchanged (group 1 needs one character), and \<^verbatim>\<open>Mat.001\<close>
  followed by a newline does not end in three digits and is stripped to \<^verbatim>\<open>Mat\<close>.
\<close>

theorem get_base_name_counterexample:
  "get_base_name (ustr ''.001'') = ustr ''.001''
   \<and> get_base_name (ustr ''Mat.001'' @ [u_newline]) = ustr ''Mat''"
  by (simp add: get_base_name_def re_match_def match_suffix_def int_of_digits_def ustr_def
      uchr_def u_dot_def u_newline_def)

subsection \<open>ModuleManager: registration bookkeeping\<close>







subsection \<open>The safe wrappers\<close>

text \<open>
  C7 (amended). The wrappers return a value whatever the wrapped operation raises. When
  the wrapped call raises, \<open>safe_register_class\<close> and \<open>safe_unregister_class\<close> return
  \<open>False\<close>, after printing the error when \<open>report_errors\<close> is true (the default);
  \<open>safe_file_operation\<close> returns \<open>None\<close> after printing the error and the traceback;
  \<open>safe_load_json\<close> returns \<^verbatim>\<open>default or {}\<close> (the default when it is truthy, \<^verbatim>\<open>{}\<close>
  when it is \<open>None\<close> or falsy): without printing when the file does not exist, and after
  printing the error when opening, reading or parsing the file raises.
\<close>

theorem safe_wrappers_catch:
  "(register_class cls w = (Some e, w') \<longrightarrow>
      safe_register_class register_class cls report_errors (w, console)
        = ((w', if report_errors
                then console @ [Print (''Error registering '' @ cls @ '': '' @ str_of e)]
                else console), False))
   \<and> (unregister_class cls w = (Some e, w') \<longrightarrow>
      safe_unregister_class unregister_class cls report_errors (w, console)
        = ((w', if report_errors
                then console @ [Print (''Error unregistering '' @ cls @ '': '' @ str_of e)]
                else console), False))
   \<and> (operation w = (Inl e, w') \<longrightarrow>
      safe_file_operation operation (w, console)
        = ((w', console @ [Print (''File operation error: '' @ str_of e), PrintExc e]), None))
   \<and> (\<not> path_exists fs filepath \<longrightarrow>
      safe_load_json json_loads fault fs filepath dflt console = (default_or_empty dflt, console))
   \<and> (path_exists fs filepath \<and>
        (fault = Some e \<or> (fault = None \<and> files fs filepath = Some content \<and> json_loads content = Inl e)) \<longrightarrow>
      safe_load_json json_loads fault fs filepath dflt console
        = (default_or_empty dflt,
           console @ [Print (''Error loading JSON from '' @ filepath @ '': '' @ str_of e)]))
   \<and> default_or_empty None = JObj []
   \<and> (\<forall>j. default_or_empty (Some j) = (if truthy j then j else JObj []))"
proof (intro conjI impI allI)
  show "register_class cls w = (Some e, w') \<Longrightarrow>
      safe_register_class register_class cls report_errors (w, console)
        = ((w', if report_errors
                then console @ [Print (''Error registering '' @ cls @ '': '' @ str_of e)]
                else console), False)"
    by (simp add: safe_register_class_def)
  show "unregister_class cls w = (Some e, w') \<Longrightarrow>
      safe_unregister_class unregister_class cls report_errors (w, console)
        = ((w', if report_errors
                then console @ [Print (''Error unregistering '' @ cls @ '': '' @ str_of e)]
                else console), False)"
    by (simp add: safe_unregister_class_def)
  show "operation w = (Inl e, w') \<Longrightarrow>
      safe_file_operation operation (w, console)
        = ((w', console @ [Print (''File operation error: '' @ str_of e), PrintExc e]), None)"
    by (simp add: safe_file_operation_def)
  show "\<not> path_exists fs filepath \<Longrightarrow>
      safe_load_json json_loads fault fs filepath dflt console = (default_or_empty dflt, console)"
    by (simp add: safe_load_json_def)
  show "path_exists fs filepath \<and>
        (fault = Some e \<or> (fault = None \<and> files fs filepath = Some content \<and> json_loads content = Inl e)) \<Longrightarrow>
      safe_load_json json_loads fault fs filepath dflt console
        = (default_or_empty dflt,
           console @ [Print (''Error loading JSON from '' @ filepath @ '': '' @ str_of e)])"
    by (auto simp: safe_load_json_def)
  show "default_or_empty None = JObj []" by (simp add: default_or_empty_def)
  show "\<And>j. default_or_empty (Some j) = (if truthy j then j else JObj [])"
    by (simp add: default_or_empty_def)
qed

text \<open>
  The theorem at a class whose registration fails, a file operation that fails and a cache
  file that does not parse.
\<close>

theorem safe_wrappers_catch_witness:
  "safe_register_class (\<lambda>c w. (Some (Raised ValueError ''already registered''), w)) ''CLEANUP_DataOption''
       True ((), [])
     = (((), [Print ''Error registering CLEANUP_DataOption: already registered'']), False)
   \<and> safe_file_operation (\<lambda>w. (Inl (Raised OSError ''no such file'') :: py_exception + string, w)) ((), [])
     = (((), [Print ''File operation error: no such file'', PrintExc (Raised OSError ''no such file'')]), None)
   \<and> safe_load_json (\<lambda>t. Inl (Raised JSONDecodeError ''Expecting value''))
       None \<lparr>files = [''cache.json'' \<mapsto> ''{''], dirs = {}\<rparr> ''cache.json'' None []
     = (JObj [], [Print ''Error loading JSON from cache.json: Expecting value''])"
proof -
  let ?reg = "\<lambda>(c::string) (w::unit). (Some (Raised ValueError ''already registered''), w)"
  let ?op = "\<lambda>w::unit. (Inl (Raised OSError ''no such file'') :: py_exception + string, w)"
  let ?loads = "\<lambda>t::string. Inl (Raised JSONDecodeError ''Expecting value'') :: py_exception + json"
  let ?fs = "\<lparr>files = [''cache.json'' \<mapsto> ''{''], dirs = {}\<rparr>"
  have 1: "?reg ''CLEANUP_DataOption'' () = (Some (Raised ValueError ''already registered''), ())" by simp
  have 2: "?op () = (Inl (Raised OSError ''no such file''), ())" by simp
  have 3: "path_exists ?fs ''cache.json'' \<and>
      (None = Some (Raised JSONDecodeError ''Expecting value'') \<or>
       ((None :: py_exception option) = None \<and> files ?fs ''cache.json'' = Some ''{''
        \<and> ?loads ''{'' = Inl (Raised JSONDecodeError ''Expecting value'')))"
    by (simp add: path_exists_def)
  note t = safe_wrappers_catch [of ?reg "''CLEANUP_DataOption''" "()" "Raised ValueError ''already registered''"
      "()" True "[]" ?reg ?op ?fs "''cache.json''" ?loads None None]
  note u = safe_wrappers_catch [of ?reg "''CLEANUP_DataOption''" "()" "Raised OSError ''no such file''"
      "()" True "[]" ?reg ?op ?fs "''cache.json''" ?loads None None]
  note v = safe_wrappers_catch [of ?reg "''CLEANUP_DataOption''" "()" "Raised JSONDecodeError ''Expecting value''"
      "()" True "[]" ?reg ?op ?fs "''cache.json''" ?loads None None "''{''"]
  show ?thesis using t u v 1 2 3 by simp
qed

text \<open>
  The claim as written fails in two places: for a file that does not exist,
  \<open>safe_load_json\<close> returns the given default and not \<^verbatim>\<open>{}\<close> (this is how
  \<open>load_asset_cache\<close> gets its fresh cache), and with \<open>report_errors = False\<close>
  \<open>safe_register_class\<close> prints nothing.
\<close>

theorem safe_load_json_counterexample:
  "safe_load_json (\<lambda>t. Inr JNull) None \<lparr>files = Map.empty, dirs = {}\<rparr> ''assets_cache.json''
       (Some (JObj [(''libraries'', JObj [])])) []
     = (JObj [(''libraries'', JObj [])], [])
   \<and> safe_register_class (\<lambda>c w. (Some (Raised ValueError ''already registered''), w))
       ''CLEANUP_DataOption'' False ((), [])
     = (((), []), False)"
  by (simp add: safe_load_json_def path_exists_def default_or_empty_def safe_register_class_def)

subsection \<open>Saving JSON through a temporary file\<close>

lemma temp_file_neq: "filepath @ ''.tmp'' \<noteq> filepath"
  by simp

text \<open>
  C10. \<open>safe_save_json\<close> writes the document to \<^verbatim>\<open><filepath>.tmp\<close> and renames that file
  over the target. Whatever fails (creating the directory, opening or writing the temporary
  file, the rename), it returns \<open>False\<close> and the target path holds what it held before;
  when it returns \<open>True\<close> the target holds the whole document. So the target never holds
  a partly written document.
\<close>

theorem safe_save_json_atomic:
  "(save_fails dirname faults fs filepath \<longrightarrow>
      snd (safe_save_json dirname json_dumps faults filepath data (fs, console)) = False)
   \<and> (snd (safe_save_json dirname json_dumps faults filepath data (fs, console)) = False \<longrightarrow>
      files (fst (fst (safe_save_json dirname json_dumps faults filepath data (fs, console)))) filepath
        = files fs filepath)
   \<and> (snd (safe_save_json dirname json_dumps faults filepath data (fs, console)) = True \<longrightarrow>
      files (fst (fst (safe_save_json dirname json_dumps faults filepath data (fs, console)))) filepath
        = Some (json_dumps data))"
  by (auto simp: safe_save_json_def save_fails_def Let_def
      split: option.splits if_splits prod.splits)

text \<open>
  The theorem at a cache file that exists, once with a serialization that fails half way
  and once with no fault.
\<close>

theorem safe_save_json_atomic_witness:
  "save_fails (\<lambda>p. ''/cfg'')
     (no_faults\<lparr>dump_fault := Some (''[1, 2'', Raised TypeError ''not serializable'')\<rparr>)
     \<lparr>files = [''/cfg/assets_cache.json'' \<mapsto> ''[]''], dirs = {''/cfg''}\<rparr> ''/cfg/assets_cache.json''
   \<and> snd (safe_save_json (\<lambda>p. ''/cfg'') (\<lambda>d. ''[1, 2, 3]'')
       (no_faults\<lparr>dump_fault := Some (''[1, 2'', Raised TypeError ''not serializable'')\<rparr>)
       ''/cfg/assets_cache.json'' ()
       (\<lparr>files = [''/cfg/assets_cache.json'' \<mapsto> ''[]''], dirs = {''/cfg''}\<rparr>, [])) = False
   \<and> files (fst (fst (safe_save_json (\<lambda>p. ''/cfg'') (\<lambda>d. ''[1, 2, 3]'')
       (no_faults\<lparr>dump_fault := Some (''[1, 2'', Raised TypeError ''not serializable'')\<rparr>)
       ''/cfg/assets_cache.json'' ()
       (\<lparr>files = [''/cfg/assets_cache.json'' \<mapsto> ''[]''], dirs = {''/cfg''}\<rparr>, []))))
       ''/cfg/assets_cache.json'' = Some ''[]''
   \<and> files (fst (fst (safe_save_json (\<lambda>p. ''/cfg'') (\<lambda>d. ''[1, 2, 3]'') no_faults
       ''/cfg/assets_cache.json'' ()
       (\<lparr>files = [''/cfg/assets_cache.json'' \<mapsto> ''[]''], dirs = {''/cfg''}\<rparr>, []))))
       ''/cfg/assets_cache.json'' = Some ''[1, 2, 3]''"
proof -
  let ?f = "no_faults\<lparr>dump_fault := Some (''[1, 2'', Raised TypeError ''not serializable'')\<rparr>"
  let ?fs = "\<lparr>files = [''/cfg/assets_cache.json'' \<mapsto> ''[]''], dirs = {''/cfg''}\<rparr>"
  have 1: "save_fails (\<lambda>p. ''/cfg'') ?f ?fs ''/cfg/assets_cache.json''"
    by (simp add: save_fails_def no_faults_def)
  have 2: "snd (safe_save_json (\<lambda>p. ''/cfg'') (\<lambda>d. ''[1, 2, 3]'') no_faults
       ''/cfg/assets_cache.json'' () (?fs, [])) = True"
    by (simp add: safe_save_json_def no_faults_def path_exists_def Let_def)
  show ?thesis
    using 1 2
      safe_save_json_atomic [of "\<lambda>p. ''/cfg''" ?f ?fs "''/cfg/assets_cache.json''"
        "\<lambda>d. ''[1, 2, 3]''" "()" "[]"]
      safe_save_json_atomic [of "\<lambda>p. ''/cfg''" no_faults ?fs "''/cfg/assets_cache.json''"
        "\<lambda>d. ''[1, 2, 3]''" "()" "[]"]
    by simp
qed

subsection \<open>The update check\<close>

lemma do_check_flags:
  "checked (upd (do_check env st)) = True \<and> checking (upd (do_check env st)) = False
   \<and> manual_check (do_check env st) = False"
  by (simp add: do_check_def Let_def split: prod.splits option.splits)

lemma do_check_error:
  assumes "try_check env (st\<lparr>upd := (upd st)\<lparr>checking := True, error := []\<rparr>\<rparr>) = (Some e, st1)"
  shows "error (upd (do_check env st)) = error (handle_check_error e (upd st1))"
  using assms by (simp add: do_check_def Let_def handle_check_error_def)

lemma load_updater_state_urlopen: "load_updater_state (env\<lparr>urlopen := u\<rparr>) fs = load_updater_state env fs"
  by (simp add: load_updater_state_def cong: sum.case_cong option.case_cong if_cong)

lemma save_updater_state_urlopen:
  "save_updater_state (env\<lparr>urlopen := u\<rparr>) j fs = save_updater_state env j fs"
  by (simp add: save_updater_state_def cong: sum.case_cong option.case_cong)

lemma apply_manifest_urlopen: "apply_manifest (env\<lparr>urlopen := u\<rparr>) data st = apply_manifest env data st"
  by (simp add: apply_manifest_def load_updater_state_urlopen save_updater_state_urlopen
      cong: sum.case_cong option.case_cong prod.case_cong if_cong)

lemma try_check_urlopen:
  assumes "fetch_manifest (env\<lparr>urlopen := u\<rparr>) = fetch_manifest env"
  shows "try_check (env\<lparr>urlopen := u\<rparr>) st = try_check env st"
  using assms by (simp add: try_check_def apply_manifest_urlopen cong: sum.case_cong)

lemma do_check_ok:
  assumes "try_check env (st\<lparr>upd := (upd st)\<lparr>checking := True, error := []\<rparr>\<rparr>) = (None, st1)"
    and "error (upd st1) = []"
  shows "error (upd (do_check env st)) = []"
  using assms by (simp add: do_check_def Let_def)

lemma set_update_available_error:
  "error (upd (snd (set_update_available persistent addon_info remote_ver st))) = error (upd st)"
  by (simp add: set_update_available_def Let_def split: sum.splits)

lemma apply_manifest_error:
  "error (upd (snd (apply_manifest env data st))) = error (upd st)"
proof -
  have s: "error (upd (snd (set_update_available p a r st))) = error (upd st)" for p a r
    by (rule set_update_available_error)
  show ?thesis
    by (auto simp: apply_manifest_def split: sum.splits prod.splits option.splits if_splits
        dest: arg_cong [where f = "\<lambda>x. error (upd (snd x))"] simp: s)
qed

lemma handle_check_error_message:
  "error (handle_check_error e u) =
     (if exc_class_of e = URLError \<or> exc_class_of e = TimeoutError \<or> exc_class_of e = OSError
      then ''Network error: '' @ str_of e
      else if exc_class_of e = JSONDecodeError then ''Invalid update manifest''
      else str_of e)"
  by (auto simp: handle_check_error_def is_OSError_def)

text \<open>
  C6. The one request of \<open>_do_check\<close> goes to \<open>MANIFEST_URL\<close>, and the run depends on the
  network through that request only. Every run ends with \<open>checked\<close> true and \<open>checking\<close>
  false. When the request or the read of the response raises an \<^verbatim>\<open>OSError\<close> (a
  \<^verbatim>\<open>URLError\<close> and a \<^verbatim>\<open>TimeoutError\<close> are such), the error recorded is
  \<^verbatim>\<open>Network error: \<close> followed by the exception's text; when the body is not valid JSON,
  it is \<^verbatim>\<open>Invalid update manifest\<close>. More generally, whatever the \<^verbatim>\<open>try\<close> block raises
  and wherever (the request, the read of the response, the decoding of the body as UTF-8,
  the parse, or the handling of the parsed manifest), the error recorded is the message
  of the \<^verbatim>\<open>except\<close> clause that takes the exception: \<^verbatim>\<open>Network error: \<close> and the text for
  a \<^verbatim>\<open>URLError\<close>, \<^verbatim>\<open>TimeoutError\<close> or \<^verbatim>\<open>OSError\<close>, \<^verbatim>\<open>Invalid update manifest\<close> for a
  \<^verbatim>\<open>JSONDecodeError\<close>, and the exception's text for any other (a body that is not UTF-8,
  a read that is not complete); and when nothing is raised the error is empty. Nothing is
  raised: \<open>do_check\<close> returns a state for every environment.
\<close>

theorem do_check_records_errors:
  "fetch_manifest env = urlopen env MANIFEST_URL [(''User-Agent'', ''QP_Tools-Updater'')] 10
   \<and> checked (upd (do_check env st)) = True \<and> checking (upd (do_check env st)) = False
   \<and> (\<forall>e. (fetch_manifest env = Inl e \<or> fetch_manifest env = Inr (Inl e)) \<and> is_OSError (exc_class_of e)
        \<longrightarrow> error (upd (do_check env st)) = ''Network error: '' @ str_of e)
   \<and> (\<forall>body content e.
          fetch_manifest env = Inr (Inr body)
          \<and> decode_utf8 env body = Inr content \<and> env_json_loads env content = Inl e
          \<and> exc_class_of e = JSONDecodeError
        \<longrightarrow> error (upd (do_check env st)) = ''Invalid update manifest'')
   \<and> (\<forall>u. u MANIFEST_URL [(''User-Agent'', ''QP_Tools-Updater'')] 10 = fetch_manifest env
        \<longrightarrow> do_check (env\<lparr>urlopen := u\<rparr>) st = do_check env st)
   \<and> (\<forall>e. fetch_manifest env = Inl e \<or> fetch_manifest env = Inr (Inl e)
          \<or> (\<exists>body. fetch_manifest env = Inr (Inr body) \<and> decode_utf8 env body = Inl e)
          \<or> (\<exists>body content. fetch_manifest env = Inr (Inr body)
                \<and> decode_utf8 env body = Inr content \<and> env_json_loads env content = Inl e)
          \<or> (\<exists>body content data st1. fetch_manifest env = Inr (Inr body)
                \<and> decode_utf8 env body = Inr content \<and> env_json_loads env content = Inr data
                \<and> apply_manifest env data (st\<lparr>upd := (upd st)\<lparr>checking := True, error := []\<rparr>\<rparr>) = (Some e, st1))
        \<longrightarrow> error (upd (do_check env st)) =
             (if exc_class_of e = URLError \<or> exc_class_of e = TimeoutError \<or> exc_class_of e = OSError
              then ''Network error: '' @ str_of e
              else if exc_class_of e = JSONDecodeError then ''Invalid update manifest''
              else str_of e))
   \<and> (\<forall>body content data st1. fetch_manifest env = Inr (Inr body)
          \<and> decode_utf8 env body = Inr content \<and> env_json_loads env content = Inr data
          \<and> apply_manifest env data (st\<lparr>upd := (upd st)\<lparr>checking := True, error := []\<rparr>\<rparr>) = (None, st1)
        \<longrightarrow> error (upd (do_check env st)) = [])"
proof (intro conjI allI impI)
  show "fetch_manifest env = urlopen env MANIFEST_URL [(''User-Agent'', ''QP_Tools-Updater'')] 10"
    by (simp add: fetch_manifest_def)
  show "checked (upd (do_check env st)) = True" "checking (upd (do_check env st)) = False"
    using do_check_flags by simp_all
next
  fix e
  let ?begun = "st\<lparr>upd := (upd st)\<lparr>checking := True, error := []\<rparr>\<rparr>"
  assume h: "(fetch_manifest env = Inl e \<or> fetch_manifest env = Inr (Inl e)) \<and> is_OSError (exc_class_of e)"
  then have "try_check env ?begun = (Some e, ?begun)"
    by (auto simp: try_check_def)
  then have "error (upd (do_check env st)) = error (handle_check_error e (upd ?begun))"
    by (rule do_check_error)
  then show "error (upd (do_check env st)) = ''Network error: '' @ str_of e"
    using h by (simp add: handle_check_error_def)
next
  fix body content e
  let ?begun = "st\<lparr>upd := (upd st)\<lparr>checking := True, error := []\<rparr>\<rparr>"
  assume h: "fetch_manifest env = Inr (Inr body)
          \<and> decode_utf8 env body = Inr content \<and> env_json_loads env content = Inl e
          \<and> exc_class_of e = JSONDecodeError"
  then have "try_check env ?begun = (Some e, ?begun)"
    by (simp add: try_check_def)
  then have "error (upd (do_check env st)) = error (handle_check_error e (upd ?begun))"
    by (rule do_check_error)
  then show "error (upd (do_check env st)) = ''Invalid update manifest''"
    using h by (simp add: handle_check_error_def is_OSError_def)
next
  fix u :: "string \<Rightarrow> (string \<times> string) list \<Rightarrow> nat \<Rightarrow> py_exception + (py_exception + string)"
  assume "u MANIFEST_URL [(''User-Agent'', ''QP_Tools-Updater'')] 10 = fetch_manifest env"
  then have "fetch_manifest (env\<lparr>urlopen := u\<rparr>) = fetch_manifest env"
    by (simp add: fetch_manifest_def)
  then show "do_check (env\<lparr>urlopen := u\<rparr>) st = do_check env st"
    by (simp add: do_check_def try_check_urlopen)
next
  fix e
  let ?begun = "st\<lparr>upd := (upd st)\<lparr>checking := True, error := []\<rparr>\<rparr>"
  assume h: "fetch_manifest env = Inl e \<or> fetch_manifest env = Inr (Inl e)
          \<or> (\<exists>body. fetch_manifest env = Inr (Inr body) \<and> decode_utf8 env body = Inl e)
          \<or> (\<exists>body content. fetch_manifest env = Inr (Inr body)
                \<and> decode_utf8 env body = Inr content \<and> env_json_loads env content = Inl e)
          \<or> (\<exists>body content data st1. fetch_manifest env = Inr (Inr body)
                \<and> decode_utf8 env body = Inr content \<and> env_json_loads env content = Inr data
                \<and> apply_manifest env data ?begun = (Some e, st1))"
  then have "\<exists>st1. try_check env ?begun = (Some e, st1)"
    by (auto simp: try_check_def)
  then obtain st1 where "try_check env ?begun = (Some e, st1)" by blast
  then have "error (upd (do_check env st)) = error (handle_check_error e (upd st1))"
    by (rule do_check_error)
  then show "error (upd (do_check env st)) =
             (if exc_class_of e = URLError \<or> exc_class_of e = TimeoutError \<or> exc_class_of e = OSError
              then ''Network error: '' @ str_of e
              else if exc_class_of e = JSONDecodeError then ''Invalid update manifest''
              else str_of e)"
    by (simp only: handle_check_error_message)
next
  fix body content data st1
  let ?begun = "st\<lparr>upd := (upd st)\<lparr>checking := True, error := []\<rparr>\<rparr>"
  assume h: "fetch_manifest env = Inr (Inr body)
          \<and> decode_utf8 env body = Inr content \<and> env_json_loads env content = Inr data
          \<and> apply_manifest env data ?begun = (None, st1)"
  then have t: "try_check env ?begun = (None, st1)" by (simp add: try_check_def)
  have "error (upd (snd (apply_manifest env data ?begun))) = error (upd ?begun)"
    by (rule apply_manifest_error)
  then have "error (upd st1) = []" using h by simp
  with t show "error (upd (do_check env st)) = []" by (rule do_check_ok)
qed

text \<open>
  The theorem at five runs that start with a stale error message: the request times out;
  the body is not JSON; the body is not UTF-8; the read of the response stops short
  (\<^verbatim>\<open>IncompleteRead\<close>, which is not an \<^verbatim>\<open>OSError\<close>); the manifest parses and names no newer
  version.
\<close>

theorem do_check_records_errors_witness:
  "error (upd (do_check
      \<lparr>urlopen = (\<lambda>url hdrs t. Inl (Raised URLError ''<urlopen error timed out>'')),
       decode_utf8 = Inr, env_json_loads = (\<lambda>t. Inl (Raised JSONDecodeError ''Expecting value'')),
       env_json_dumps = (\<lambda>j. ''{}''), py_int = (\<lambda>s. None),
       get_state_file = Inr ''/cfg/updater_state.json'',
       state_read_fault = None, state_write_fault = None, now_strftime = ''2026-01-01 10:00'',
       timers_register_fault = None, CURRENT_ADDON_VERSION = ''1.0.0''\<rparr>
      \<lparr>upd = \<lparr>checked = False, checking = False, addon_update_available = False,
         addon_remote_version = JStr [], addon_changelog = JStr [], addon_download_url = JStr [],
         error = ''stale'', download_progress = 0, download_status = [], addon_dismissed = False\<rparr>,
       manual_check = True, disk = \<lparr>files = Map.empty, dirs = {}\<rparr>\<rparr>))
     = ''Network error: <urlopen error timed out>''
   \<and> error (upd (do_check
      \<lparr>urlopen = (\<lambda>url hdrs t. Inr (Inr ''<html>'')),
       decode_utf8 = Inr, env_json_loads = (\<lambda>t. Inl (Raised JSONDecodeError ''Expecting value'')),
       env_json_dumps = (\<lambda>j. ''{}''), py_int = (\<lambda>s. None),
       get_state_file = Inr ''/cfg/updater_state.json'',
       state_read_fault = None, state_write_fault = None, now_strftime = ''2026-01-01 10:00'',
       timers_register_fault = None, CURRENT_ADDON_VERSION = ''1.0.0''\<rparr>
      \<lparr>upd = \<lparr>checked = False, checking = False, addon_update_available = False,
         addon_remote_version = JStr [], addon_changelog = JStr [], addon_download_url = JStr [],
         error = ''stale'', download_progress = 0, download_status = [], addon_dismissed = False\<rparr>,
       manual_check = True, disk = \<lparr>files = Map.empty, dirs = {}\<rparr>\<rparr>))
     = ''Invalid update manifest''
   \<and> error (upd (do_check
      \<lparr>urlopen = (\<lambda>url hdrs t. Inr (Inr ''binary'')),
       decode_utf8 = (\<lambda>b. Inl (Raised UnicodeDecodeError ''utf-8 codec cannot decode byte 0xff in position 0'')), env_json_loads = (\<lambda>t. Inl (Raised JSONDecodeError ''Expecting value'')),
       env_json_dumps = (\<lambda>j. ''{}''), py_int = (\<lambda>s. None),
       get_state_file = Inr ''/cfg/updater_state.json'',
       state_read_fault = None, state_write_fault = None, now_strftime = ''2026-01-01 10:00'',
       timers_register_fault = None, CURRENT_ADDON_VERSION = ''1.0.0''\<rparr>
      \<lparr>upd = \<lparr>checked = False, checking = False, addon_update_available = False,
         addon_remote_version = JStr [], addon_changelog = JStr [], addon_download_url = JStr [],
         error = ''stale'', download_progress = 0, download_status = [], addon_dismissed = False\<rparr>,
       manual_check = True, disk = \<lparr>files = Map.empty, dirs = {}\<rparr>\<rparr>))
     = ''utf-8 codec cannot decode byte 0xff in position 0''
   \<and> error (upd (do_check
      \<lparr>urlopen = (\<lambda>url hdrs t. Inr (Inl (Raised OtherException ''IncompleteRead(10 bytes read, 90 more expected)''))),
       decode_utf8 = Inr, env_json_loads = (\<lambda>t. Inl (Raised JSONDecodeError ''Expecting value'')),
       env_json_dumps = (\<lambda>j. ''{}''), py_int = (\<lambda>s. None),
       get_state_file = Inr ''/cfg/updater_state.json'',
       state_read_fault = None, state_write_fault = None, now_strftime = ''2026-01-01 10:00'',
       timers_register_fault = None, CURRENT_ADDON_VERSION = ''1.0.0''\<rparr>
      \<lparr>upd = \<lparr>checked = False, checking = False, addon_update_available = False,
         addon_remote_version = JStr [], addon_changelog = JStr [], addon_download_url = JStr [],
         error = ''stale'', download_progress = 0, download_status = [], addon_dismissed = False\<rparr>,
       manual_check = True, disk = \<lparr>files = Map.empty, dirs = {}\<rparr>\<rparr>))
     = ''IncompleteRead(10 bytes read, 90 more expected)''
   \<and> error (upd (do_check
      \<lparr>urlopen = (\<lambda>url hdrs t. Inr (Inr ''{...}'')),
       decode_utf8 = Inr, env_json_loads = (\<lambda>t. Inr (JObj [(''addon'', JObj [(''version'', JStr ''1.0.0'')])])),
       env_json_dumps = (\<lambda>j. ''{}''), py_int = (\<lambda>s. None),
       get_state_file = Inr ''/cfg/updater_state.json'',
       state_read_fault = None, state_write_fault = None, now_strftime = ''2026-01-01 10:00'',
       timers_register_fault = None, CURRENT_ADDON_VERSION = ''1.0.0''\<rparr>
      \<lparr>upd = \<lparr>checked = False, checking = False, addon_update_available = False,
         addon_remote_version = JStr [], addon_changelog = JStr [], addon_download_url = JStr [],
         error = ''stale'', download_progress = 0, download_status = [], addon_dismissed = False\<rparr>,
       manual_check = True, disk = \<lparr>files = Map.empty, dirs = {}\<rparr>\<rparr>))
     = []"
proof -
  let ?env1 = "\<lparr>urlopen = (\<lambda>url hdrs t. Inl (Raised URLError ''<urlopen error timed out>'')),
       decode_utf8 = Inr, env_json_loads = (\<lambda>t. Inl (Raised JSONDecodeError ''Expecting value'')),
       env_json_dumps = (\<lambda>j. ''{}''), py_int = (\<lambda>s. None),
       get_state_file = Inr ''/cfg/updater_state.json'',
       state_read_fault = None, state_write_fault = None, now_strftime = ''2026-01-01 10:00'',
       timers_register_fault = None, CURRENT_ADDON_VERSION = ''1.0.0''\<rparr>"
  let ?env2 = "\<lparr>urlopen = (\<lambda>url hdrs t. Inr (Inr ''<html>'')),
       decode_utf8 = Inr, env_json_loads = (\<lambda>t. Inl (Raised JSONDecodeError ''Expecting value'')),
       env_json_dumps = (\<lambda>j. ''{}''), py_int = (\<lambda>s. None),
       get_state_file = Inr ''/cfg/updater_state.json'',
       state_read_fault = None, state_write_fault = None, now_strftime = ''2026-01-01 10:00'',
       timers_register_fault = None, CURRENT_ADDON_VERSION = ''1.0.0''\<rparr>"
  let ?env3 = "\<lparr>urlopen = (\<lambda>url hdrs t. Inr (Inr ''binary'')),
       decode_utf8 = (\<lambda>b. Inl (Raised UnicodeDecodeError ''utf-8 codec cannot decode byte 0xff in position 0'')), env_json_loads = (\<lambda>t. Inl (Raised JSONDecodeError ''Expecting value'')),
       env_json_dumps = (\<lambda>j. ''{}''), py_int = (\<lambda>s. None),
       get_state_file = Inr ''/cfg/updater_state.json'',
       state_read_fault = None, state_write_fault = None, now_strftime = ''2026-01-01 10:00'',
       timers_register_fault = None, CURRENT_ADDON_VERSION = ''1.0.0''\<rparr>"
  let ?env4 = "\<lparr>urlopen = (\<lambda>url hdrs t. Inr (Inl (Raised OtherException ''IncompleteRead(10 bytes read, 90 more expected)''))),
       decode_utf8 = Inr, env_json_loads = (\<lambda>t. Inl (Raised JSONDecodeError ''Expecting value'')),
       env_json_dumps = (\<lambda>j. ''{}''), py_int = (\<lambda>s. None),
       get_state_file = Inr ''/cfg/updater_state.json'',
       state_read_fault = None, state_write_fault = None, now_strftime = ''2026-01-01 10:00'',
       timers_register_fault = None, CURRENT_ADDON_VERSION = ''1.0.0''\<rparr>"
  let ?env5 = "\<lparr>urlopen = (\<lambda>url hdrs t. Inr (Inr ''{...}'')),
       decode_utf8 = Inr, env_json_loads = (\<lambda>t. Inr (JObj [(''addon'', JObj [(''version'', JStr ''1.0.0'')])])),
       env_json_dumps = (\<lambda>j. ''{}''), py_int = (\<lambda>s. None),
       get_state_file = Inr ''/cfg/updater_state.json'',
       state_read_fault = None, state_write_fault = None, now_strftime = ''2026-01-01 10:00'',
       timers_register_fault = None, CURRENT_ADDON_VERSION = ''1.0.0''\<rparr>"
  let ?st = "\<lparr>upd = \<lparr>checked = False, checking = False, addon_update_available = False,
         addon_remote_version = JStr [], addon_changelog = JStr [], addon_download_url = JStr [],
         error = ''stale'', download_progress = 0, download_status = [], addon_dismissed = False\<rparr>,
       manual_check = True, disk = \<lparr>files = Map.empty, dirs = {}\<rparr>\<rparr>"
  let ?begun = "?st\<lparr>upd := (upd ?st)\<lparr>checking := True, error := []\<rparr>\<rparr>"
  let ?e1 = "Raised URLError ''<urlopen error timed out>''"
  let ?e2 = "Raised JSONDecodeError ''Expecting value''"
  let ?e3 = "Raised UnicodeDecodeError ''utf-8 codec cannot decode byte 0xff in position 0''"
  let ?e4 = "Raised OtherException ''IncompleteRead(10 bytes read, 90 more expected)''"
  let ?data = "JObj [(''addon'', JObj [(''version'', JStr ''1.0.0'')])]"
  have 1: "fetch_manifest ?env1 = Inl ?e1" by (simp add: fetch_manifest_def)
  have 2: "fetch_manifest ?env2 = Inr (Inr ''<html>'')
          \<and> decode_utf8 ?env2 ''<html>'' = Inr ''<html>''
          \<and> env_json_loads ?env2 ''<html>'' = Inl ?e2
          \<and> exc_class_of ?e2 = JSONDecodeError"
    by (simp add: fetch_manifest_def)
  have 3: "\<exists>body. fetch_manifest ?env3 = Inr (Inr body) \<and> decode_utf8 ?env3 body = Inl ?e3"
    by (simp add: fetch_manifest_def)
  have 4: "fetch_manifest ?env4 = Inr (Inl ?e4)" by (simp add: fetch_manifest_def)
  have "fst (apply_manifest ?env5 ?data ?begun) = None"
    by (simp add: apply_manifest_def load_updater_state_def path_exists_def json_get_def
        is_newer_def version_tuple_def json_setitem_def save_updater_state_def
        default_updater_state_def)
  then have 5: "fetch_manifest ?env5 = Inr (Inr ''{...}'')
          \<and> decode_utf8 ?env5 ''{...}'' = Inr ''{...}''
          \<and> env_json_loads ?env5 ''{...}'' = Inr ?data
          \<and> apply_manifest ?env5 ?data ?begun = (None, snd (apply_manifest ?env5 ?data ?begun))"
    by (simp add: fetch_manifest_def prod_eq_iff)
  from do_check_records_errors [of ?env1 ?st] 1
  have a: "error (upd (do_check ?env1 ?st)) =
      (if exc_class_of ?e1 = URLError \<or> exc_class_of ?e1 = TimeoutError \<or> exc_class_of ?e1 = OSError
       then ''Network error: '' @ str_of ?e1
       else if exc_class_of ?e1 = JSONDecodeError then ''Invalid update manifest''
       else str_of ?e1)"
    by blast
  from do_check_records_errors [of ?env2 ?st] 2
  have b: "error (upd (do_check ?env2 ?st)) = ''Invalid update manifest''"
    by blast
  from do_check_records_errors [of ?env3 ?st] 3
  have c: "error (upd (do_check ?env3 ?st)) =
      (if exc_class_of ?e3 = URLError \<or> exc_class_of ?e3 = TimeoutError \<or> exc_class_of ?e3 = OSError
       then ''Network error: '' @ str_of ?e3
       else if exc_class_of ?e3 = JSONDecodeError then ''Invalid update manifest''
       else str_of ?e3)"
    by blast
  from do_check_records_errors [of ?env4 ?st] 4
  have d: "error (upd (do_check ?env4 ?st)) =
      (if exc_class_of ?e4 = URLError \<or> exc_class_of ?e4 = TimeoutError \<or> exc_class_of ?e4 = OSError
       then ''Network error: '' @ str_of ?e4
       else if exc_class_of ?e4 = JSONDecodeError then ''Invalid update manifest''
       else str_of ?e4)"
    by blast
  from do_check_records_errors [of ?env5 ?st] 5
  have e: "error (upd (do_check ?env5 ?st)) = []"
    by blast
  show ?thesis using a b c d e by simp
qed


subsection \<open>The asset cache after a scan\<close>

lemma map_of_dict_set: "map_of (dict_set kvs k v) = (map_of kvs)(k \<mapsto> v)"
  by (induction kvs k v rule: dict_set.induct) auto





lemma safe_save_json_ok:
  assumes "faults = no_faults" and "filepath \<notin> dirs fs" and "dirname filepath \<noteq> filepath"
  shows "snd (safe_save_json dirname json_dumps faults filepath data (fs, console)) = True
     \<and> files (fst (fst (safe_save_json dirname json_dumps faults filepath data (fs, console)))) filepath
        = Some (json_dumps data)"
  using assms by (simp add: safe_save_json_def no_faults_def Let_def)

lemma save_asset_cache_shape:
  assumes "save_asset_cache env (JObj kvs) st = Inr (ok, st1)"
    and "cache_save_faults env = no_faults" and "cache_path env \<notin> dirs (s_disk st)"
    and "path_dirname env (cache_path env) \<noteq> cache_path env"
  shows "\<exists>kvs1. files (s_disk st1) (cache_path env) = Some (cache_dumps env (JObj kvs1))
     \<and> (\<forall>k. k \<noteq> ''timestamp'' \<longrightarrow> map_of kvs1 k = map_of kvs k)"
proof -
  let ?kvs1 = "dict_set kvs ''timestamp'' (JFloat (time_time env (s_clock st)))"
  let ?r = "safe_save_json (path_dirname env) (cache_dumps env) (cache_save_faults env)
                  (cache_path env) (JObj ?kvs1) (s_disk st, s_console st)"
  have "s_disk st1 = fst (fst ?r)"
    using assms(1) by (auto simp: save_asset_cache_def json_setitem_def split: prod.splits)
  moreover have "files (fst (fst ?r)) (cache_path env) = Some (cache_dumps env (JObj ?kvs1))"
    using safe_save_json_ok [of "cache_save_faults env" "cache_path env" "s_disk st" "path_dirname env"
        "cache_dumps env" "JObj ?kvs1" "s_console st"] assms(2,3,4) by blast
  moreover have "\<forall>k. k \<noteq> ''timestamp'' \<longrightarrow> map_of ?kvs1 k = map_of kvs k"
    by (simp add: map_of_dict_set)
  ultimately show ?thesis by metis
qed











subsection \<open>Conflict analysis\<close>

lemma map_of_setdefault_append:
  "map_of (setdefault_append kvs k x)
     = (map_of kvs)(k \<mapsto> (case map_of kvs k of None \<Rightarrow> [x] | Some xs \<Rightarrow> xs @ [x]))"
  by (induction kvs k x rule: setdefault_append.induct) auto

lemma keys_setdefault_append:
  "map fst (setdefault_append kvs k x) = (if k \<in> fst ` set kvs then map fst kvs else map fst kvs @ [k])"
  by (induction kvs k x rule: setdefault_append.induct) auto

lemma grouped_by_base_step:
  assumes "grouped_by_base groups seen"
  shows "grouped_by_base (setdefault_append groups (get_base_name (db_name item)) item) (seen @ [item])"
proof -
  let ?b = "get_base_name (db_name item)"
  have d: "distinct (map fst groups)" and m: "\<And>k. map_of groups k =
          (if filter (\<lambda>i. get_base_name (db_name i) = k) seen = [] then None
           else Some (filter (\<lambda>i. get_base_name (db_name i) = k) seen))"
    using assms by (auto simp: grouped_by_base_def)
  have "fst ` set groups = dom (map_of groups)" by (simp add: dom_map_of_conv_image_fst)
  then have "distinct (map fst (setdefault_append groups ?b item))"
    using d by (auto simp: keys_setdefault_append)
  moreover have "\<And>k. map_of (setdefault_append groups ?b item) k =
          (if filter (\<lambda>i. get_base_name (db_name i) = k) (seen @ [item]) = [] then None
           else Some (filter (\<lambda>i. get_base_name (db_name i) = k) (seen @ [item])))"
    using m by (simp add: map_of_setdefault_append)
  ultimately show ?thesis by (simp add: grouped_by_base_def)
qed

lemma grouped_by_base_foldl:
  assumes "grouped_by_base groups seen"
  shows "grouped_by_base
     (foldl (\<lambda>groups item. setdefault_append groups (get_base_name (db_name item)) item) groups coll)
     (seen @ coll)"
  using assms
proof (induction coll arbitrary: groups seen)
  case Nil
  then show ?case by simp
next
  case (Cons item coll)
  from grouped_by_base_step [OF Cons.prems, of item] Cons.IH [of _ "seen @ [item]"]
  show ?case by simp
qed

lemma base_groups_of_grouped: "grouped_by_base (base_groups_of coll) coll"
  using grouped_by_base_foldl [of "[]" "[]" coll]
  by (simp add: base_groups_of_def grouped_by_base_def)

lemma base_groups_of_entry:
  assumes "(k, its) \<in> set (base_groups_of coll)"
  shows "its = filter (\<lambda>i. get_base_name (db_name i) = k) coll \<and> its \<noteq> []"
proof -
  have g: "grouped_by_base (base_groups_of coll) coll" by (rule base_groups_of_grouped)
  then have "distinct (map fst (base_groups_of coll))" by (simp add: grouped_by_base_def)
  then have "map_of (base_groups_of coll) k = Some its"
    using assms by (rule map_of_is_SomeI)
  moreover have "map_of (base_groups_of coll) k =
          (if filter (\<lambda>i. get_base_name (db_name i) = k) coll = [] then None
           else Some (filter (\<lambda>i. get_base_name (db_name i) = k) coll))"
    using g by (simp add: grouped_by_base_def)
  ultimately show ?thesis by (auto split: if_splits)
qed


lemma place_in_group_Some:
  assumes "place_in_group identical item gs = Some gs'" and "well_grouped identical gs"
  shows "well_grouped identical gs'
     \<and> mset (concat (map members gs')) = mset (concat (map members gs)) + {#item#}
     \<and> map representative gs' = map representative gs"
  using assms
proof (induction gs arbitrary: gs')
  case Nil
  then show ?case by simp
next
  case (Cons g gs)
  have wg: "members g \<noteq> []" "representative g = hd (members g)"
    "\<forall>m \<in> set (members g). identical m (representative g)" and wgs: "well_grouped identical gs"
    using Cons.prems(2) by (auto simp: well_grouped_def)
  show ?case
  proof (cases "identical item (representative g)")
    case True
    then have gs': "gs' = g\<lparr>members := members g @ [item]\<rparr> # gs" using Cons.prems(1) by simp
    have "well_grouped identical [g\<lparr>members := members g @ [item]\<rparr>]"
      using wg True by (auto simp: well_grouped_def)
    then have "well_grouped identical gs'" using wgs gs' by (auto simp: well_grouped_def)
    then show ?thesis using gs' by simp
  next
    case False
    then obtain r where r: "place_in_group identical item gs = Some r" "gs' = g # r"
      using Cons.prems(1) by (auto split: option.splits)
    from Cons.IH [OF r(1) wgs] have "well_grouped identical r"
      "mset (concat (map members r)) = mset (concat (map members gs)) + {#item#}"
      "map representative r = map representative gs" by auto
    then show ?thesis using r(2) wg by (auto simp: well_grouped_def)
  qed
qed

lemma add_item_to_groups_step:
  assumes "well_grouped identical gs" and "identical item item"
  shows "well_grouped identical (add_item_to_groups identical gs item)
     \<and> mset (concat (map members (add_item_to_groups identical gs item)))
        = mset (concat (map members gs)) + {#item#}"
proof (cases "place_in_group identical item gs")
  case None
  then have "add_item_to_groups identical gs item = gs @ [\<lparr>representative = item, members = [item]\<rparr>]"
    by (simp add: add_item_to_groups_def)
  then show ?thesis using assms by (auto simp: well_grouped_def)
next
  case (Some gs')
  then have "add_item_to_groups identical gs item = gs'" by (simp add: add_item_to_groups_def)
  then show ?thesis using place_in_group_Some [OF Some assms(1)] by simp
qed

lemma foldl_add_item_to_groups:
  assumes "well_grouped identical gs" and "\<forall>item \<in> set its. identical item item"
  shows "well_grouped identical (foldl (add_item_to_groups identical) gs its)
     \<and> mset (concat (map members (foldl (add_item_to_groups identical) gs its)))
        = mset (concat (map members gs)) + mset its"
  using assms
proof (induction its arbitrary: gs)
  case Nil
  then show ?case by simp
next
  case (Cons item its)
  have s: "well_grouped identical (add_item_to_groups identical gs item)"
    "mset (concat (map members (add_item_to_groups identical gs item)))
        = mset (concat (map members gs)) + {#item#}"
    using add_item_to_groups_step [of identical gs item] Cons.prems by auto
  from Cons.IH [OF s(1)] Cons.prems(2) s(2) show ?case by simp
qed









lemma analyze_entry:
  assumes "(base_name, info) \<in> set (analyze_data_conflicts_with_grouping penv dt coll)"
  shows "ci_items info = filter (\<lambda>i. get_base_name (db_name i) = base_name) coll
     \<and> 2 \<le> length (ci_items info)
     \<and> ci_identity_groups info = group_items_by_identity penv dt (ci_items info)
     \<and> ci_local_items info = filter (\<lambda>i. \<not> is_linked_data i) (ci_items info)
     \<and> ci_linked_items info = filter is_linked_data (ci_items info)"
proof -
  from assms obtain its where its: "(base_name, its) \<in> set (base_groups_of coll)" "\<not> length its \<le> 1"
    "info = conflict_info_of penv dt its"
    by (auto simp: analyze_data_conflicts_with_grouping_def)
  have "its = filter (\<lambda>i. get_base_name (db_name i) = base_name) coll"
    using base_groups_of_entry [OF its(1)] by simp
  then show ?thesis using its(2,3) by (simp add: conflict_info_of_def Let_def)
qed











subsection \<open>Cleanup runs: what every strategy keeps\<close>

lemma erase_node_remap [simp]:
  "erase_node (remap_material_node a b n) = erase_node n"
  "erase_node (remap_group_node a b n) = erase_node n"
  "erase_node (remap_image_node a b n) = erase_node n"
  by (simp_all add: erase_node_def remap_material_node_def remap_group_node_def remap_image_node_def)

lemma erase_refs_map_group_nodes:
  assumes "\<And>n. erase_node (f n) = erase_node n"
  shows "erase_refs (map_group_nodes f d) = erase_refs d"
  using assms by (cases "db_data d") (simp_all add: erase_refs_def map_group_nodes_def)

lemma erase_refs_map_material_nodes:
  assumes "\<And>n. erase_node (f n) = erase_node n"
  shows "erase_refs (map_material_nodes f d) = erase_refs d"
  using assms
  by (cases "db_data d") (auto simp: erase_refs_def map_material_nodes_def split: option.splits)

lemma erase_refs_header [simp]:
  "db_ptr (erase_refs d) = db_ptr d" "db_name (erase_refs d) = db_name d"
  "db_library (erase_refs d) = db_library d"
  by (cases "db_data d"; simp add: erase_refs_def)+

lemma is_linked_erase [simp]: "is_linked_data (erase_refs d) = is_linked_data d"
  by (simp add: is_linked_data_def)

lemma erased_remap_by_type:
  "map erase_refs (data_collection dt (remap_by_type dt a b bd)) = map erase_refs (data_collection dt bd)"
  by (cases dt)
    (simp_all add: data_collection_def remap_by_type_def remap_materials_def remap_node_groups_def
      remap_images_def erase_refs_map_group_nodes erase_refs_map_material_nodes)

lemma erased_collection_remove:
  "map erase_refs (data_collection dt (collection_remove dt item bd))
     = filter (\<lambda>e. db_ptr e \<noteq> db_ptr item) (map erase_refs (data_collection dt bd))"
  by (cases dt) (simp_all add: data_collection_def collection_remove_def filter_map comp_def)

lemma remap_and_remove_effect:
  "trace (remap_and_remove dt m t st) = trace st @ calls_for (m, t)"
  "erased_collection dt (remap_and_remove dt m t st)
     = filter (\<lambda>e. db_ptr e \<noteq> db_ptr m) (erased_collection dt st)"
  "conflict_selections (remap_and_remove dt m t st) = conflict_selections st"
  by (simp_all add: remap_and_remove_def remap_data_def remove_item_def Let_def calls_for_def
      erased_collection_def erased_collection_remove erased_remap_by_type)

lemma cleans_refl: "cleans dt Q st st"
  unfolding cleans_def by (rule exI [of _ "[]"]) simp

lemma cleans_trans:
  assumes "cleans dt Q st st1" and "cleans dt Q st1 st2"
  shows "cleans dt Q st st2"
proof -
  from assms(1) obtain p1 where 1: "trace st1 = trace st @ concat (map calls_for p1)"
    "list_all (\<lambda>xy. Q (fst xy) (snd xy)) p1"
    "erased_collection dt st1
       = filter (\<lambda>e. db_ptr e \<notin> set (map (db_ptr \<circ> fst) p1)) (erased_collection dt st)"
    "conflict_selections st1 = conflict_selections st"
    unfolding cleans_def by blast
  from assms(2) obtain p2 where 2: "trace st2 = trace st1 @ concat (map calls_for p2)"
    "list_all (\<lambda>xy. Q (fst xy) (snd xy)) p2"
    "erased_collection dt st2
       = filter (\<lambda>e. db_ptr e \<notin> set (map (db_ptr \<circ> fst) p2)) (erased_collection dt st1)"
    "conflict_selections st2 = conflict_selections st1"
    unfolding cleans_def by blast
  have "trace st2 = trace st @ concat (map calls_for (p1 @ p2))" using 1(1) 2(1) by simp
  moreover have "list_all (\<lambda>xy. Q (fst xy) (snd xy)) (p1 @ p2)" using 1(2) 2(2) by simp
  moreover have "erased_collection dt st2
       = filter (\<lambda>e. db_ptr e \<notin> set (map (db_ptr \<circ> fst) (p1 @ p2))) (erased_collection dt st)"
    using 1(3) 2(3) by (auto intro: filter_cong)
  moreover have "conflict_selections st2 = conflict_selections st" using 1(4) 2(4) by simp
  ultimately show ?thesis unfolding cleans_def by blast
qed

lemma cleans_same:
  assumes "trace st' = trace st" and "erased_collection dt st' = erased_collection dt st"
    and "conflict_selections st' = conflict_selections st"
  shows "cleans dt Q st st'"
  unfolding cleans_def using assms by (intro exI [of _ "[]"]) simp

lemma cleans_remap_and_remove:
  assumes "Q (erase_refs m) (erase_refs t)"
  shows "cleans dt Q st (remap_and_remove dt m t st)"
  unfolding cleans_def
  using assms
  by (intro exI [of _ "[(erase_refs m, erase_refs t)]"])
    (simp add: remap_and_remove_effect calls_for_def)

lemma cleans_subset:
  assumes "cleans dt Q st st'"
  shows "set (erased_collection dt st') \<subseteq> set (erased_collection dt st)"
  using assms unfolding cleans_def by auto

lemma cleans_foldl:
  assumes "\<And>s x. x \<in> set xs \<Longrightarrow> cleans dt Q st0 s \<Longrightarrow> cleans dt Q st0 (f s x)"
    and "cleans dt Q st0 st"
  shows "cleans dt Q st0 (foldl f st xs)"
  using assms
proof (induction xs arbitrary: st)
  case Nil
  then show ?case by simp
next
  case (Cons x xs)
  have "cleans dt Q st0 (f st x)" using Cons.prems by simp
  then show ?case using Cons.IH Cons.prems(1) by simp
qed


lemma cleans_selections:
  assumes "cleans dt Q st st'"
  shows "conflict_selections st' = conflict_selections st"
  using assms unfolding cleans_def by blast

lemma cleans_step:
  assumes "cleans dt Q st0 s" and "Q (erase_refs m) (erase_refs t)"
  shows "cleans dt Q st0 (remap_and_remove dt m t s)"
  using cleans_trans [OF assms(1) cleans_remap_and_remove [of Q m t dt s, OF assms(2)]] .

lemma cleans_counter:
  assumes "cleans dt Q st0 s" and "trace s' = trace s" and "bdata s' = bdata s"
    and "conflict_selections s' = conflict_selections s"
  shows "cleans dt Q st0 s'"
proof -
  have "cleans dt Q s s'"
    using assms(2,3,4) by (intro cleans_same) (simp_all add: erased_collection_def)
  with assms(1) show ?thesis by (rule cleans_trans)
qed

lemma clean_members_cleans:
  assumes "cleans dt Q st0 st"
    and "\<And>m. m \<in> set ms \<Longrightarrow> db_ptr m \<noteq> db_ptr repr \<Longrightarrow> \<not> is_linked_data m
           \<Longrightarrow> Q (erase_refs m) (erase_refs repr)"
  shows "cleans dt Q st0 (clean_members dt count_linked repr ms st)"
  unfolding clean_members_def
proof (rule cleans_foldl [OF _ assms(1)])
  fix s m
  assume m: "m \<in> set ms" and s: "cleans dt Q st0 s"
  show "cleans dt Q st0
         (if db_ptr m = db_ptr repr then s
          else if is_linked_data m
            then (if count_linked then s\<lparr>skipped_linked := skipped_linked s + 1\<rparr> else s)
          else remap_and_remove dt m repr s)"
  proof (cases "db_ptr m = db_ptr repr")
    case True
    then show ?thesis using s by simp
  next
    case False
    show ?thesis
    proof (cases "is_linked_data m")
      case True
      have "cleans dt Q st0 (s\<lparr>skipped_linked := skipped_linked s + 1\<rparr>)"
        using s by (rule cleans_counter) simp_all
      then show ?thesis using True False s by simp
    next
      case l: False
      have "cleans dt Q st0 (remap_and_remove dt m repr s)"
        using s assms(2) [OF m False l] by (rule cleans_step)
      then show ?thesis using False l by simp
    qed
  qed
qed

lemma clean_group_cleans:
  assumes "cleans dt Q st0 st"
    and "\<And>m r. m \<in> set (members g) \<Longrightarrow> r \<in> set (members g) \<Longrightarrow> db_ptr m \<noteq> db_ptr r
           \<Longrightarrow> \<not> is_linked_data m \<Longrightarrow> Q (erase_refs m) (erase_refs r)"
  shows "cleans dt Q st0 (clean_group dt count_linked g st)"
proof (cases "members g")
  case Nil
  then show ?thesis using assms(1) by (simp add: clean_group_def)
next
  case (Cons m ms)
  show ?thesis
  proof (cases ms)
    case Nil
    then show ?thesis using assms(1) Cons by (simp add: clean_group_def)
  next
    case (Cons m' ms')
    let ?loc = "filter (\<lambda>x. \<not> is_linked_data x) (members g)"
    let ?repr = "case ?loc of l # ls \<Rightarrow> l | [] \<Rightarrow> m"
    have r: "?repr \<in> set (members g)"
    proof (cases ?loc)
      case Nil
      then show ?thesis using \<open>members g = m # ms\<close> by simp
    next
      case (Cons l ls)
      have "l \<in> set ?loc" by (simp add: Cons)
      then have "l \<in> set (members g)" by (simp only: set_filter) blast
      then show ?thesis by (simp add: Cons)
    qed
    have "clean_group dt count_linked g st = clean_members dt count_linked ?repr (members g) st"
      using \<open>members g = m # ms\<close> Cons by (simp add: clean_group_def Let_def)
    moreover have "cleans dt Q st0 (clean_members dt count_linked ?repr (members g) st)"
      using assms(1)
    proof (rule clean_members_cleans)
      fix x
      assume "x \<in> set (members g)" "db_ptr x \<noteq> db_ptr ?repr" "\<not> is_linked_data x"
      then show "Q (erase_refs x) (erase_refs ?repr)" using assms(2) r by blast
    qed
    ultimately show ?thesis by simp
  qed
qed

lemma place_in_group_rel:
  assumes "place_in_group identical item gs = Some gs'" and "well_grouped R gs"
    and "\<And>x y. identical x y \<Longrightarrow> R x y"
  shows "well_grouped R gs'
     \<and> mset (concat (map members gs')) = mset (concat (map members gs)) + {#item#}
     \<and> map representative gs' = map representative gs"
  using assms(1,2)
proof (induction gs arbitrary: gs')
  case Nil
  then show ?case by simp
next
  case (Cons g gs)
  have wg: "members g \<noteq> []" "representative g = hd (members g)"
    "\<forall>m \<in> set (members g). R m (representative g)" and wgs: "well_grouped R gs"
    using Cons.prems(2) by (auto simp: well_grouped_def)
  show ?case
  proof (cases "identical item (representative g)")
    case True
    then have gs': "gs' = g\<lparr>members := members g @ [item]\<rparr> # gs" using Cons.prems(1) by simp
    have "R item (representative g)" using True assms(3) by blast
    then have "well_grouped R [g\<lparr>members := members g @ [item]\<rparr>]"
      using wg by (auto simp: well_grouped_def)
    then have "well_grouped R gs'" using wgs gs' by (auto simp: well_grouped_def)
    then show ?thesis using gs' by simp
  next
    case False
    then obtain r where r: "place_in_group identical item gs = Some r" "gs' = g # r"
      using Cons.prems(1) by (auto split: option.splits)
    from Cons.IH [OF r(1) wgs] have "well_grouped R r"
      "mset (concat (map members r)) = mset (concat (map members gs)) + {#item#}"
      "map representative r = map representative gs" by auto
    then show ?thesis using r(2) wg by (auto simp: well_grouped_def)
  qed
qed

lemma add_item_to_groups_rel:
  assumes "well_grouped R gs" and "R item item" and "\<And>x y. identical x y \<Longrightarrow> R x y"
  shows "well_grouped R (add_item_to_groups identical gs item)
     \<and> mset (concat (map members (add_item_to_groups identical gs item)))
        = mset (concat (map members gs)) + {#item#}
     \<and> set (map representative (add_item_to_groups identical gs item))
        \<subseteq> insert item (set (map representative gs))"
proof (cases "place_in_group identical item gs")
  case None
  then have "add_item_to_groups identical gs item = gs @ [\<lparr>representative = item, members = [item]\<rparr>]"
    by (simp add: add_item_to_groups_def)
  then show ?thesis using assms(1,2) by (auto simp: well_grouped_def)
next
  case (Some gs')
  then have "add_item_to_groups identical gs item = gs'" by (simp add: add_item_to_groups_def)
  then show ?thesis using place_in_group_rel [OF Some assms(1) assms(3)] by auto
qed

lemma foldl_add_item_to_groups_rel:
  assumes "well_grouped R gs" and "\<And>x. R x x" and "\<And>x y. identical x y \<Longrightarrow> R x y"
  shows "well_grouped R (foldl (add_item_to_groups identical) gs its)
     \<and> mset (concat (map members (foldl (add_item_to_groups identical) gs its)))
        = mset (concat (map members gs)) + mset its
     \<and> set (map representative (foldl (add_item_to_groups identical) gs its))
        \<subseteq> set its \<union> set (map representative gs)"
  using assms(1)
proof (induction its arbitrary: gs)
  case Nil
  then show ?case by simp
next
  case (Cons item its)
  have s: "well_grouped R (add_item_to_groups identical gs item)"
    "mset (concat (map members (add_item_to_groups identical gs item)))
        = mset (concat (map members gs)) + {#item#}"
    "set (map representative (add_item_to_groups identical gs item))
        \<subseteq> insert item (set (map representative gs))"
    using add_item_to_groups_rel [of R gs item identical] Cons.prems assms(2,3) by auto
  let ?gs1 = "add_item_to_groups identical gs item"
  let ?r = "foldl (add_item_to_groups identical) ?gs1 its"
  from Cons.IH [OF s(1)] have ih: "well_grouped R ?r"
    "mset (concat (map members ?r)) = mset (concat (map members ?gs1)) + mset its"
    "set (map representative ?r) \<subseteq> set its \<union> set (map representative ?gs1)"
    by blast+
  have "set (map representative ?r) \<subseteq> set (item # its) \<union> set (map representative gs)"
    using ih(3) s(3) by fastforce
  then show ?case using ih(1,2) s(2) by simp
qed

lemma group_items_by_identity_weak:
  "well_grouped (\<lambda>m r. m = r \<or> are_items_identical_by_type penv dt m r)
      (group_items_by_identity penv dt its)
   \<and> mset (concat (map members (group_items_by_identity penv dt its))) = mset its
   \<and> set (map representative (group_items_by_identity penv dt its)) \<subseteq> set its"
proof -
  let ?R = "\<lambda>m r. m = r \<or> are_items_identical_by_type penv dt m r"
  have "well_grouped ?R []" by (simp add: well_grouped_def)
  then show ?thesis
    using foldl_add_item_to_groups_rel [of ?R "[]" "are_items_identical_by_type penv dt" its]
    by (simp add: group_items_by_identity_def)
qed

lemma group_members_subset:
  assumes "g \<in> set (group_items_by_identity penv dt its)"
  shows "set (members g) \<subseteq> set its"
proof -
  have "set_mset (mset (concat (map members (group_items_by_identity penv dt its)))) = set its"
    using group_items_by_identity_weak [of penv dt its] by simp
  then have "set (concat (map members (group_items_by_identity penv dt its))) = set its" by simp
  then show ?thesis using assms by auto
qed

lemma node_type_erase [simp]: "node_type \<circ> erase_node = node_type"
  by (rule ext) (simp add: erase_node_def)

lemma identical_erase [simp]:
  "are_items_identical_by_type penv dt (erase_refs x) (erase_refs y)
     = are_items_identical_by_type penv dt x y"
  by (cases dt; cases "db_data x"; cases "db_data y")
    (auto simp: are_items_identical_by_type_def erase_refs_def are_materials_identical_def
      are_node_groups_identical_def split: option.splits)

lemma clean_base_group_cleans:
  assumes "cleans dt (identical_pair penv dt E0) st0 st"
    and "\<And>i. i \<in> set its \<Longrightarrow> erase_refs i \<in> set E0 \<and> get_base_name (db_name i) = b"
  shows "cleans dt (identical_pair penv dt E0) st0 (clean_base_group penv dt count_linked its st)"
proof (cases "length its \<le> 1")
  case True
  then show ?thesis using assms(1) by (simp add: clean_base_group_def)
next
  case False
  let ?gs = "group_items_by_identity penv dt its"
  note w = group_items_by_identity_weak [of penv dt its]
  have "cleans dt (identical_pair penv dt E0) st0
     (foldl (\<lambda>st g. clean_group dt count_linked g st) st ?gs)"
  proof (rule cleans_foldl [OF _ assms(1)])
    fix s g
    assume g: "g \<in> set ?gs" and s: "cleans dt (identical_pair penv dt E0) st0 s"
    have sub: "set (members g) \<subseteq> set its" using g by (rule group_members_subset)
    have "set (map representative ?gs) \<subseteq> set its" using w by blast
    then have rep: "representative g \<in> set its" using g by auto
    have "well_grouped (\<lambda>m r. m = r \<or> are_items_identical_by_type penv dt m r) ?gs"
      using w by blast
    then have rel: "\<And>m. m \<in> set (members g) \<Longrightarrow>
        m = representative g \<or> are_items_identical_by_type penv dt m (representative g)"
      using g unfolding well_grouped_def by blast
    show "cleans dt (identical_pair penv dt E0) st0 (clean_group dt count_linked g s)"
      using s
    proof (rule clean_group_cleans)
      fix m r
      assume m: "m \<in> set (members g)" and r: "r \<in> set (members g)"
        and ne: "db_ptr m \<noteq> db_ptr r" and l: "\<not> is_linked_data m"
      have mi: "m \<in> set its" and ri: "r \<in> set its" using m r sub by blast+
      have "removed_pair E0 (erase_refs m) (erase_refs r)"
        using assms(2) [OF mi] assms(2) [OF ri] ne l
        by (simp add: removed_pair_def)
      moreover have "erase_refs (representative g) \<in> set E0" using assms(2) rep by blast
      moreover have "erase_refs m = erase_refs (representative g)
          \<or> are_items_identical_by_type penv dt (erase_refs m) (erase_refs (representative g))"
        using rel [OF m] by auto
      moreover have "erase_refs r = erase_refs (representative g)
          \<or> are_items_identical_by_type penv dt (erase_refs r) (erase_refs (representative g))"
        using rel [OF r] by auto
      ultimately show "identical_pair penv dt E0 (erase_refs m) (erase_refs r)"
        unfolding identical_pair_def by blast
    qed
  qed
  then show ?thesis using False by (simp add: clean_base_group_def)
qed

lemma cleans_reset: "cleans dt Q st (reset_counters st)"
  by (rule cleans_same) (simp_all add: reset_counters_def erased_collection_def)

lemma erased_reset [simp]: "erased_collection dt (reset_counters st) = erased_collection dt st"
  by (simp add: reset_counters_def erased_collection_def)

lemma standard_cleanup_cleans:
  "cleans dt (identical_pair penv dt (erased_collection dt st)) st
     (standard_cleanup_with_grouping penv dt st)"
  unfolding standard_cleanup_with_grouping_def
proof (rule cleans_foldl [OF _ cleans_reset])
  fix s x
  assume x: "x \<in> set (base_groups_of (data_collection dt (bdata st)))"
    and s: "cleans dt (identical_pair penv dt (erased_collection dt st)) st s"
  obtain b its where bi: "x = (b, its)" by (cases x)
  have its: "its = filter (\<lambda>i. get_base_name (db_name i) = b) (data_collection dt (bdata st))"
    using base_groups_of_entry x bi by blast
  have "cleans dt (identical_pair penv dt (erased_collection dt st)) st
      (clean_base_group penv dt True its s)"
    using s
  proof (rule clean_base_group_cleans)
    fix i
    assume "i \<in> set its"
    then show "erase_refs i \<in> set (erased_collection dt st) \<and> get_base_name (db_name i) = b"
      using its by (auto simp: erased_collection_def)
  qed
  then show "cleans dt (identical_pair penv dt (erased_collection dt st)) st
      (case x of (b, its) \<Rightarrow> clean_base_group penv dt True its s)"
    using bi by simp
qed

lemma items_with_base_erased:
  assumes "i \<in> set (items_with_base dt b s)"
  shows "erase_refs i \<in> set (erased_collection dt s) \<and> get_base_name (db_name i) = b"
  using assms by (auto simp: items_with_base_def erased_collection_def)

lemma auto_clean_conflict_cleans:
  assumes "cleans dt (identical_pair penv dt (erased_collection dt st)) st s"
  shows "cleans dt (identical_pair penv dt (erased_collection dt st)) st
     (auto_clean_conflict penv dt conflict s)"
proof -
  obtain b info where c: "conflict = (b, info)" by (cases conflict)
  let ?its = "items_with_base dt b s"
  have sub: "set (erased_collection dt s) \<subseteq> set (erased_collection dt st)"
    using assms by (rule cleans_subset)
  have cb: "cleans dt (identical_pair penv dt (erased_collection dt st)) st
      (clean_base_group penv dt False ?its s)"
    using assms
  proof (rule clean_base_group_cleans)
    fix i
    assume "i \<in> set ?its"
    then show "erase_refs i \<in> set (erased_collection dt st) \<and> get_base_name (db_name i) = b"
      using items_with_base_erased sub by blast
  qed
  have sk: "cleans dt (identical_pair penv dt (erased_collection dt st)) st
      (s\<lparr>skipped := skipped s + int (length ?its) - 1\<rparr>)"
    using assms by (rule cleans_counter) simp_all
  show ?thesis
    using cb sk assms c
    by (cases "?its = []") (simp_all add: auto_clean_conflict_def Let_def)
qed

lemma auto_clean_cleans:
  "cleans dt (identical_pair penv dt (erased_collection dt st)) st (auto_clean_execution penv dt st)"
  unfolding auto_clean_execution_def
  by (rule cleans_foldl [OF _ cleans_reset]) (rule auto_clean_conflict_cleans)

lemma cleans_foldl_cond:
  assumes "cleans dt Q st0 st"
    and "\<And>x. x \<in> set xs \<Longrightarrow> P x \<Longrightarrow> Q (erase_refs x) (erase_refs t)"
  shows "cleans dt Q st0 (foldl (\<lambda>s x. if P x then remap_and_remove dt x t s else s) st xs)"
proof (rule cleans_foldl [OF _ assms(1)])
  fix s x
  assume "x \<in> set xs" and s: "cleans dt Q st0 s"
  then show "cleans dt Q st0 (if P x then remap_and_remove dt x t s else s)"
    using assms(2) cleans_step [OF s] by auto
qed

lemma choose_data_conflict_cleans:
  assumes "cleans dt (chosen_pair (conflict_selections st dt) (erased_collection dt st)) st s"
  shows "cleans dt (chosen_pair (conflict_selections st dt) (erased_collection dt st)) st
     (choose_data_conflict dt conflict s)"
proof -
  let ?Q = "chosen_pair (conflict_selections st dt) (erased_collection dt st)"
  let ?b = "item_base_name conflict"
  let ?all = "items_with_base dt ?b s"
  have sub: "set (erased_collection dt s) \<subseteq> set (erased_collection dt st)"
    using assms by (rule cleans_subset)
  have sel: "conflict_selections s = conflict_selections st" using assms by (rule cleans_selections)
  have c1: "cleans dt ?Q st (s\<lparr>skipped := skipped s + int (length ?all) - 1\<rparr>)"
    using assms by (rule cleans_counter) simp_all
  have c2: "cleans dt ?Q st (s\<lparr>no_choice_needed :=
       no_choice_needed s + (if ?all \<noteq> [] then int (length ?all) - 1 else 0)\<rparr>)"
    using assms by (rule cleans_counter) simp_all
  have c3: "cleans dt ?Q st
      (foldl (\<lambda>s item. if db_ptr item \<noteq> db_ptr target \<and> \<not> is_linked_data item
                        then remap_and_remove dt item target s else s) s ?all)"
    if t: "find (\<lambda>item. db_name item = selected_name) ?all = Some target"
      and n: "conflict_selections s dt ?b = Some selected_name"
    for selected_name target
    using assms
  proof (rule cleans_foldl_cond)
    fix x
    assume x: "x \<in> set ?all" and p: "db_ptr x \<noteq> db_ptr target \<and> \<not> is_linked_data x"
    have tg: "target \<in> set ?all" "db_name target = selected_name"
      using t by (auto simp: find_Some_iff)
    have "removed_pair (erased_collection dt st) (erase_refs x) (erase_refs target)"
      using items_with_base_erased [OF x] items_with_base_erased [OF tg(1)] sub p
      by (auto simp: removed_pair_def)
    moreover have "conflict_selections st dt (get_base_name (db_name x)) = Some (db_name target)"
      using items_with_base_erased [OF x] n sel tg(2) by simp
    ultimately show "?Q (erase_refs x) (erase_refs target)" by (simp add: chosen_pair_def)
  qed
  show ?thesis
    using assms c1 c2 c3
    by (auto simp: choose_data_conflict_def Let_def split: option.splits)
qed

lemma choose_data_loop_cleans:
  "cleans dt (chosen_pair (conflict_selections st dt) (erased_collection dt st)) st
     (foldl (\<lambda>st conflict. choose_data_conflict dt conflict st) (reset_counters st) cs)"
  by (rule cleans_foldl [OF _ cleans_reset]) (rule choose_data_conflict_cleans)

lemma find_filter_Cons:
  assumes "filter P xs = y # ys"
  shows "find P xs = Some y"
  using assms by (induction xs) (auto split: if_splits)

lemma find_map_erase:
  "find is_linked_data (map erase_refs xs) = map_option erase_refs (find is_linked_data xs)"
  by (induction xs) auto

lemma filter_base_erase:
  "filter (\<lambda>i. get_base_name (db_name i) = b) (map erase_refs xs)
     = map erase_refs (filter (\<lambda>i. get_base_name (db_name i) = b) xs)"
  by (induction xs) auto

lemma distinct_ptr_linked:
  assumes "distinct (map db_ptr E0)" and "x \<in> set E0" and "y \<in> set E0"
    and "\<not> is_linked_data x" and "is_linked_data y"
  shows "db_ptr x \<noteq> db_ptr y"
proof
  assume "db_ptr x = db_ptr y"
  then have "x = y" using assms(1,2,3) by (meson distinct_map inj_onD)
  then show False using assms(4,5) by simp
qed

lemma keep_linked_conflict_cleans:
  assumes "cleans dt (linked_pair (erased_collection dt st)) st s"
    and "distinct (map db_ptr (erased_collection dt st))"
  shows "cleans dt (linked_pair (erased_collection dt st)) st
     (keep_linked_conflict dt
        (analyze_data_conflicts_with_grouping penv dt (data_collection dt (bdata st))) conflict s)"
proof -
  let ?E0 = "erased_collection dt st"
  let ?Q = "linked_pair ?E0"
  let ?b = "item_base_name conflict"
  let ?an = "analyze_data_conflicts_with_grouping penv dt (data_collection dt (bdata st))"
  have c1: "cleans dt ?Q st (s\<lparr>skipped := skipped s + int (length (items_with_base dt ?b s)) - 1\<rparr>)"
    using assms(1) by (rule cleans_counter) simp_all
  have c2: "\<And>n. cleans dt ?Q st (s\<lparr>no_linked_available := no_linked_available s + n\<rparr>)"
    using assms(1) by (rule cleans_counter) simp_all
  have c3: "cleans dt ?Q st
      (foldl (\<lambda>s local_item. remap_and_remove dt local_item target s) s
         (filter (\<lambda>item. \<not> is_linked_data item) (ci_items info)))"
    if i: "map_of ?an ?b = Some info" and t: "filter is_linked_data (ci_items info) = target # rest"
    for info target rest
  proof -
    have "(?b, info) \<in> set ?an" using i by (rule map_of_SomeD)
    then have its: "ci_items info
        = filter (\<lambda>i. get_base_name (db_name i) = ?b) (data_collection dt (bdata st))"
      using analyze_entry by blast
    have "target \<in> set (filter is_linked_data (ci_items info))" by (simp add: t)
    then have tg: "target \<in> set (ci_items info)" "is_linked_data target" by simp_all
    have f: "find is_linked_data (filter (\<lambda>i. get_base_name (db_name i) = ?b) ?E0)
        = Some (erase_refs target)"
      using find_filter_Cons [OF t] its
      by (simp add: erased_collection_def filter_base_erase find_map_erase)
    have "cleans dt ?Q st
      (foldl (\<lambda>s x. if True then remap_and_remove dt x target s else s) s
         (filter (\<lambda>item. \<not> is_linked_data item) (ci_items info)))"
      using assms(1)
    proof (rule cleans_foldl_cond)
      fix x
      assume x: "x \<in> set (filter (\<lambda>item. \<not> is_linked_data item) (ci_items info))"
      then have xi: "x \<in> set (ci_items info)" "\<not> is_linked_data x" by auto
      have ex: "erase_refs x \<in> set ?E0" "get_base_name (db_name x) = ?b"
        using xi(1) its by (auto simp: erased_collection_def)
      have et: "erase_refs target \<in> set ?E0" "get_base_name (db_name target) = ?b"
        using tg(1) its by (auto simp: erased_collection_def)
      have "db_ptr (erase_refs x) \<noteq> db_ptr (erase_refs target)"
        using distinct_ptr_linked [OF assms(2) ex(1) et(1)] xi(2) tg(2) by simp
      then have "removed_pair ?E0 (erase_refs x) (erase_refs target)"
        using ex et xi(2) by (simp add: removed_pair_def)
      then show "?Q (erase_refs x) (erase_refs target)"
        using f ex(2) by (simp add: linked_pair_def)
    qed
    then show ?thesis by simp
  qed
  show ?thesis
    using assms(1) c1 c2 c3
    by (auto simp: keep_linked_conflict_def Let_def split: option.splits list.splits)
qed

lemma keep_linked_cleans:
  assumes "distinct (map db_ptr (data_collection dt (bdata st)))"
  shows "cleans dt (linked_pair (erased_collection dt st)) st (keep_linked_execution penv dt op st)"
proof -
  have d: "distinct (map db_ptr (erased_collection dt st))"
    using assms by (simp add: erased_collection_def comp_def)
  have "cleans dt (linked_pair (erased_collection dt st)) st
     (foldl (\<lambda>s conflict. keep_linked_conflict dt
        (analyze_data_conflicts_with_grouping penv dt (data_collection dt (bdata st))) conflict s)
        (reset_counters st) (conflicts op))"
    by (rule cleans_foldl [OF _ cleans_reset]) (rule keep_linked_conflict_cleans [OF _ d])
  then show ?thesis by (simp add: keep_linked_execution_def Let_def)
qed

lemma cleans_mono:
  assumes "cleans dt Q st st'" and "\<And>x y. Q x y \<Longrightarrow> Q' x y"
  shows "cleans dt Q' st st'"
proof -
  from assms(1) obtain pairs where p: "trace st' = trace st @ concat (map calls_for pairs)"
    "list_all (\<lambda>xy. Q (fst xy) (snd xy)) pairs"
    "erased_collection dt st'
       = filter (\<lambda>e. db_ptr e \<notin> set (map (db_ptr \<circ> fst) pairs)) (erased_collection dt st)"
    "conflict_selections st' = conflict_selections st"
    unfolding cleans_def by blast
  have "list_all (\<lambda>xy. Q' (fst xy) (snd xy)) pairs"
    using p(2) assms(2) by (simp add: list_all_iff)
  with p(1,3,4) show ?thesis unfolding cleans_def by blast
qed

lemma conflict_cleanup_conflict_cleans:
  assumes "cleans dt (removed_pair (erased_collection dt st)) st s"
  shows "cleans dt (removed_pair (erased_collection dt st)) st
     (conflict_cleanup_conflict dt
        (analyze_data_conflicts_with_grouping penv dt (data_collection dt (bdata st))) conflict s)"
proof -
  let ?E0 = "erased_collection dt st"
  let ?Q = "removed_pair ?E0"
  let ?b = "item_base_name conflict"
  let ?an = "analyze_data_conflicts_with_grouping penv dt (data_collection dt (bdata st))"
  have c1: "cleans dt ?Q st (s\<lparr>skipped := skipped s + int (length (items_with_base dt ?b s)) - 1\<rparr>)"
    using assms(1) by (rule cleans_counter) simp_all
  have c3: "cleans dt ?Q st
      (foldl (\<lambda>st g.
          if same_group g tg
          then foldl (\<lambda>st member.
                 if db_ptr member \<noteq> db_ptr (representative tg) \<and> \<not> is_linked_data member
                 then remap_and_remove dt member (representative tg) st else st) st (members g)
          else foldl (\<lambda>st member.
                 if db_ptr member \<noteq> db_ptr (representative g) \<and> \<not> is_linked_data member
                 then remap_and_remove dt member (representative g) st else st) st (members g))
        s (ci_identity_groups info))"
    if i: "map_of ?an ?b = Some info" and tg: "tg \<in> set (ci_identity_groups info)"
    for info tg
  proof -
    have "(?b, info) \<in> set ?an" using i by (rule map_of_SomeD)
    then have e: "ci_items info
        = filter (\<lambda>i. get_base_name (db_name i) = ?b) (data_collection dt (bdata st))"
      "ci_identity_groups info = group_items_by_identity penv dt (ci_items info)"
      using analyze_entry by blast+
    have inE: "\<And>x. x \<in> set (ci_items info) \<Longrightarrow>
        erase_refs x \<in> set ?E0 \<and> get_base_name (db_name x) = ?b"
      using e(1) by (auto simp: erased_collection_def)
    have reps: "\<And>g. g \<in> set (ci_identity_groups info) \<Longrightarrow> representative g \<in> set (ci_items info)"
      using group_items_by_identity_weak [of penv dt "ci_items info"] e(2) by auto
    have mems: "\<And>g. g \<in> set (ci_identity_groups info) \<Longrightarrow> set (members g) \<subseteq> set (ci_items info)"
      using group_members_subset e(2) by metis
    have pair: "?Q (erase_refs m) (erase_refs r)"
      if "m \<in> set (ci_items info)" "r \<in> set (ci_items info)" "db_ptr m \<noteq> db_ptr r"
        "\<not> is_linked_data m" for m r
      using inE [OF that(1)] inE [OF that(2)] that(3,4) by (simp add: removed_pair_def)
    show ?thesis
    proof (rule cleans_foldl [OF _ assms(1)])
      fix s' g
      assume g: "g \<in> set (ci_identity_groups info)" and s': "cleans dt ?Q st s'"
      have a: "cleans dt ?Q st
          (foldl (\<lambda>st member.
                 if db_ptr member \<noteq> db_ptr (representative tg) \<and> \<not> is_linked_data member
                 then remap_and_remove dt member (representative tg) st else st) s' (members g))"
        using s'
      proof (rule cleans_foldl_cond)
        fix x
        assume "x \<in> set (members g)"
          "db_ptr x \<noteq> db_ptr (representative tg) \<and> \<not> is_linked_data x"
        then show "?Q (erase_refs x) (erase_refs (representative tg))"
          using pair mems [OF g] reps [OF tg] by blast
      qed
      have b: "cleans dt ?Q st
          (foldl (\<lambda>st member.
                 if db_ptr member \<noteq> db_ptr (representative g) \<and> \<not> is_linked_data member
                 then remap_and_remove dt member (representative g) st else st) s' (members g))"
        using s'
      proof (rule cleans_foldl_cond)
        fix x
        assume "x \<in> set (members g)"
          "db_ptr x \<noteq> db_ptr (representative g) \<and> \<not> is_linked_data x"
        then show "?Q (erase_refs x) (erase_refs (representative g))"
          using pair mems [OF g] reps [OF g] by blast
      qed
      show "cleans dt ?Q st
          (if same_group g tg
          then foldl (\<lambda>st member.
                 if db_ptr member \<noteq> db_ptr (representative tg) \<and> \<not> is_linked_data member
                 then remap_and_remove dt member (representative tg) st else st) s' (members g)
          else foldl (\<lambda>st member.
                 if db_ptr member \<noteq> db_ptr (representative g) \<and> \<not> is_linked_data member
                 then remap_and_remove dt member (representative g) st else st) s' (members g))"
        using a b by simp
    qed
  qed
  show ?thesis
  proof (cases "skip_this_conflict conflict")
    case True
    then show ?thesis using c1 by (simp add: conflict_cleanup_conflict_def)
  next
    case ns: False
    show ?thesis
    proof (cases "map_of ?an ?b")
      case None
      then show ?thesis using ns assms(1) by (simp add: conflict_cleanup_conflict_def)
    next
      case (Some info)
      show ?thesis
      proof (cases "conflict_selections s dt ?b")
        case None
        then show ?thesis using ns Some assms(1) by (simp add: conflict_cleanup_conflict_def)
      next
        case sel: (Some selected_name)
        show ?thesis
        proof (cases "selected_name = []")
          case True
          then show ?thesis using ns Some sel assms(1) by (simp add: conflict_cleanup_conflict_def)
        next
          case ne: False
          show ?thesis
          proof (cases "find (\<lambda>g. db_name (representative g) = selected_name)
              (ci_identity_groups info)")
            case None
            then show ?thesis
              using ns Some sel ne assms(1) by (simp add: conflict_cleanup_conflict_def)
          next
            case tg: (Some target_group)
            then have "target_group \<in> set (ci_identity_groups info)"
              by (auto simp: find_Some_iff)
            from c3 [OF Some this] show ?thesis
              using ns Some sel ne tg by (simp add: conflict_cleanup_conflict_def)
          qed
        qed
      qed
    qed
  qed
qed

lemma conflict_cleanup_loop_cleans:
  "cleans dt (removed_pair (erased_collection dt st)) st
     (foldl (\<lambda>s conflict. conflict_cleanup_conflict dt
        (analyze_data_conflicts_with_grouping penv dt (data_collection dt (bdata st))) conflict s)
        (reset_counters st) cs)"
  by (rule cleans_foldl [OF _ cleans_reset]) (rule conflict_cleanup_conflict_cleans)

lemma strategy_results_clean:
  assumes "st' \<in> set (strategy_results penv dt op st)"
    and "distinct (map db_ptr (data_collection dt (bdata st)))"
  shows "\<exists>st1. cleans dt (removed_pair (erased_collection dt st)) st st1
     \<and> trace st' = trace st1 \<and> bdata st' = bdata st1"
proof -
  let ?Q = "removed_pair (erased_collection dt st)"
  have 1: "cleans dt ?Q st (standard_cleanup_with_grouping penv dt st)"
    using standard_cleanup_cleans by (rule cleans_mono) (simp add: identical_pair_def)
  have 2: "cleans dt ?Q st (auto_clean_execution penv dt st)"
    using auto_clean_cleans by (rule cleans_mono) (simp add: identical_pair_def)
  have 3: "cleans dt ?Q st
      (foldl (\<lambda>st conflict. choose_data_conflict dt conflict st) (reset_counters st) (conflicts op))"
    using choose_data_loop_cleans by (rule cleans_mono) (simp add: chosen_pair_def)
  have 4: "cleans dt ?Q st (keep_linked_execution penv dt op st)"
    using keep_linked_cleans [OF assms(2)] by (rule cleans_mono) (simp add: linked_pair_def)
  have 5: "cleans dt ?Q st
      (foldl (\<lambda>s conflict. conflict_cleanup_conflict dt
        (analyze_data_conflicts_with_grouping penv dt (data_collection dt (bdata st))) conflict s)
        (reset_counters st) (conflicts op))"
    by (rule conflict_cleanup_loop_cleans)
  from assms(1) consider
    "st' = standard_cleanup_with_grouping penv dt st" | "st' = auto_clean_execution penv dt st"
    | "st' = choose_data_execution dt op st" | "st' = keep_linked_execution penv dt op st"
    | "st' = conflict_cleanup_with_grouping penv dt op st"
    by (auto simp: strategy_results_def)
  then show ?thesis
  proof cases
    case 1
    then show ?thesis using \<open>cleans dt ?Q st (standard_cleanup_with_grouping penv dt st)\<close> by blast
  next
    case 2
    then show ?thesis using \<open>cleans dt ?Q st (auto_clean_execution penv dt st)\<close> by blast
  next
    case 3
    show ?thesis
      by (rule exI [of _ "foldl (\<lambda>st conflict. choose_data_conflict dt conflict st)
            (reset_counters st) (conflicts op)"])
        (simp add: 3 \<open>cleans dt ?Q st (foldl (\<lambda>st conflict. choose_data_conflict dt conflict st)
            (reset_counters st) (conflicts op))\<close> choose_data_execution_def Let_def)
  next
    case 4
    then show ?thesis using \<open>cleans dt ?Q st (keep_linked_execution penv dt op st)\<close> by blast
  next
    case 5
    show ?thesis
      by (rule exI [of _ "foldl (\<lambda>s conflict. conflict_cleanup_conflict dt
        (analyze_data_conflicts_with_grouping penv dt (data_collection dt (bdata st))) conflict s)
        (reset_counters st) (conflicts op)"])
        (simp add: 5 \<open>cleans dt ?Q st (foldl (\<lambda>s conflict. conflict_cleanup_conflict dt
        (analyze_data_conflicts_with_grouping penv dt (data_collection dt (bdata st))) conflict s)
        (reset_counters st) (conflicts op))\<close> conflict_cleanup_with_grouping_def Let_def)
  qed
qed

end
